theory Spec2Isabelle
  imports Main "HOL-Library.Multiset" "HOL-Library.Log_Nat"
begin

section \<open>JSON objects and rows\<close>

text \<open>
  Request bodies and validated payloads are plain JavaScript objects: a finite map from
  keys to values, where an absent key reads as \<open>undefined\<close> (\<open>None\<close>).
  Numbers inside objects are integers here (ids and counts are the only numbers the
  routes look at).
\<close>

datatype jval = JNull | JBool bool | JNum int | JStr string

type_synonym jobject = "string \<rightharpoonup> jval"

definition num_col :: "jobject \<Rightarrow> string \<Rightarrow> int option" where
  "num_col obj k = (case obj k of Some (JNum n) \<Rightarrow> Some n | _ \<Rightarrow> None)"

definition str_col :: "jobject \<Rightarrow> string \<Rightarrow> string option" where
  "str_col obj k = (case obj k of Some (JStr t) \<Rightarrow> Some t | _ \<Rightarrow> None)"

text \<open>
  Modelled from the spec: the tables of \<open>@shared/schema\<close>, which is not part of the
  sources. Every row has a generated integer identifier; the columns the storage layer or
  the spec names are fields of the row, and the remaining columns of a row are kept as the
  object that was inserted (\<open>details\<close>). A column filled from an inserted object is
  \<open>None\<close> (SQL NULL) when the object has no value of the column's type under that key.
  Timestamps are integers (milliseconds).
\<close>

record contact_submission =
  cs_id :: int
  cs_details :: jobject
  cs_status :: string
  cs_assignedTo :: "int option"
  cs_createdAt :: int
  cs_updatedAt :: int

record page_view =
  pv_id :: int
  pv_path :: "string option"
  pv_timestamp :: int
  pv_details :: jobject

record client =
  cl_id :: int
  cl_details :: jobject

record project =
  pr_id :: int
  pr_clientId :: "int option"
  pr_status :: "string option"
  pr_details :: jobject

record engineer =
  en_id :: int
  en_availability :: string
  en_details :: jobject

text \<open>
  The relational store behind \<open>db\<close>: each table is the list of its rows in the order
  a scan returns them (an insert appends), with the next value of its identifier
  sequence. The storage functions are modelled on a store that executes the statement it
  is given; the one rejection that is modelled is that of a value no integer column
  takes, in the PATCH route. A store that is unreachable is outside this model.
\<close>

record store =
  contactSubmissions_rows :: "contact_submission list"
  contactSubmissions_seq :: int
  pageViews_rows :: "page_view list"
  pageViews_seq :: int
  clients_rows :: "client list"
  clients_seq :: int
  projects_rows :: "project list"
  projects_seq :: int
  engineers_rows :: "engineer list"

definition empty_store :: store where
  "empty_store = \<lparr> contactSubmissions_rows = [], contactSubmissions_seq = 1,
     pageViews_rows = [], pageViews_seq = 1, clients_rows = [], clients_seq = 1,
     projects_rows = [], projects_seq = 1, engineers_rows = [] \<rparr>"

section \<open>Query building blocks\<close>

text \<open>
  \<open>orderBy(desc(col))\<close>. The store returns the rows in descending order of the key and
  leaves the order among rows with equal keys open: it may differ from one execution of a
  query to the next, and with a \<open>limit\<close>. That choice is the argument \<open>tie\<close> of
  each execution: the store takes the rows in ascending order of \<open>tie\<close> and sorts them
  on the key, keeping rows of equal key in that order. \<open>count()\<close> is the number of rows.
\<close>

definition orderBy_desc :: "('a \<Rightarrow> int) \<Rightarrow> ('a \<Rightarrow> int) \<Rightarrow> 'a list \<Rightarrow> 'a list" where
  "orderBy_desc tie f rows = sort_key (\<lambda>r. - f r) (sort_key tie rows)"

definition limit :: "nat \<Rightarrow> 'a list \<Rightarrow> 'a list" where
  "limit n rows = take n rows"

definition count_rows :: "'a list \<Rightarrow> int" where
  "count_rows rows = int (length rows)"

text \<open>
  Destructuring \<open>const [x] = rows\<close>: the first element, or \<open>undefined\<close> when the
  array is empty.
\<close>

definition first_row :: "'a list \<Rightarrow> 'a option" where
  "first_row rows = (case rows of [] \<Rightarrow> None | r # _ \<Rightarrow> Some r)"

section \<open>JavaScript numbers\<close>

text \<open>
  A finite IEEE 754 double is a rational. \<open>fl\<close> rounds a rational to the nearest
  number with a 53-bit significand, ties to even, which is what every arithmetic operation
  on doubles does to its exact result. The exponent is not bounded: the values below are
  quotients and small multiples of row counts, far from overflow and underflow. A row
  count is a double as it is (every integer below \<open>2\<^sup>5\<^sup>3\<close> is one).
\<close>

definition round_ties_even :: "rat \<Rightarrow> int" where
  "round_ties_even x =
     (let f = \<lfloor>x\<rfloor>; d = x - of_int f in
      if d < 1 / 2 then f
      else if 1 / 2 < d then f + 1
      else if even f then f else f + 1)"

definition exponent :: "rat \<Rightarrow> int" where
  \<comment> \<open>for \<open>0 < x\<close>: the \<open>e\<close> with \<open>2 ^ e \<le> x < 2 ^ (e + 1)\<close>\<close>
  "exponent x = (if 1 \<le> x then bitlen \<lfloor>x\<rfloor> - 1 else - bitlen (\<lceil>1 / x\<rceil> - 1))"

definition fl :: "rat \<Rightarrow> rat" where
  "fl x =
     (if x = 0 then 0
      else let ulp = 2 powi (exponent \<bar>x\<bar> - 52) in
        sgn x * (of_int (round_ties_even (\<bar>x\<bar> / ulp)) * ulp))"

definition js_div :: "rat \<Rightarrow> rat \<Rightarrow> rat" where
  "js_div a b = fl (a / b)"

definition js_mul :: "rat \<Rightarrow> rat \<Rightarrow> rat" where
  "js_mul a b = fl (a * b)"

text \<open>\<open>Math.round\<close>: the nearest integer, a tie going up.\<close>

definition Math_round :: "rat \<Rightarrow> rat" where
  "Math_round x = of_int \<lfloor>x + 1 / 2\<rfloor>"

section \<open>Storage layer\<close>

subsection \<open>Contact submissions\<close>

text \<open>
  \<open>createContactSubmission\<close>: one insert with \<open>returning()\<close>; the function returns the
  first returned row. The generated columns are the identifier and both timestamps
  (the store's clock is the argument \<open>now\<close>); a new submission has status \<open>new\<close>
  unless the inserted object carries one.
\<close>

definition insert_contactSubmission ::
    "jobject \<Rightarrow> int \<Rightarrow> store \<Rightarrow> contact_submission list \<times> store" where
  "insert_contactSubmission v now s =
     (let row = \<lparr> cs_id = contactSubmissions_seq s, cs_details = v,
                   cs_status = (case str_col v ''status'' of Some t \<Rightarrow> t | None \<Rightarrow> ''new''),
                   cs_assignedTo = num_col v ''assignedTo'',
                   cs_createdAt = now, cs_updatedAt = now \<rparr>
      in ([row], s\<lparr> contactSubmissions_rows := contactSubmissions_rows s @ [row],
                     contactSubmissions_seq := contactSubmissions_seq s + 1 \<rparr>))"

definition createContactSubmission ::
    "jobject \<Rightarrow> int \<Rightarrow> store \<Rightarrow> contact_submission option \<times> store" where
  "createContactSubmission insertSubmission now s =
     (let (returned, s') = insert_contactSubmission insertSubmission now s
      in (first_row returned, s'))"

definition getContactSubmissions ::
    "(contact_submission \<Rightarrow> int) \<Rightarrow> store \<Rightarrow> contact_submission list" where
  "getContactSubmissions tie s = orderBy_desc tie cs_createdAt (contactSubmissions_rows s)"

text \<open>
  \<open>updateContactSubmissionStatus\<close>. The object \<open>updateData\<close> always has \<open>status\<close> and
  \<open>updatedAt\<close>, and has \<open>assignedTo\<close> only when the argument is truthy (given, and not
  \<open>0\<close>). The update rewrites every row whose id matches, \<open>returning()\<close> yields the
  rewritten rows, and the function returns the first of them: \<open>undefined\<close> (\<open>None\<close>)
  when there is none. Nothing in the function throws.
\<close>

record update_data =
  ud_status :: string
  ud_updatedAt :: int
  ud_assignedTo :: "int option"

definition truthy :: "int option \<Rightarrow> bool" where
  "truthy a = (case a of None \<Rightarrow> False | Some n \<Rightarrow> n \<noteq> 0)"

definition set_columns :: "update_data \<Rightarrow> contact_submission \<Rightarrow> contact_submission" where
  "set_columns ud r =
     (let r' = r\<lparr> cs_status := ud_status ud, cs_updatedAt := ud_updatedAt ud \<rparr>
      in case ud_assignedTo ud of None \<Rightarrow> r' | Some a \<Rightarrow> r'\<lparr> cs_assignedTo := Some a \<rparr>)"

definition update_contactSubmissions ::
    "update_data \<Rightarrow> int \<Rightarrow> store \<Rightarrow> contact_submission list \<times> store" where
  "update_contactSubmissions ud i s =
     (let rows' = map (\<lambda>r. if cs_id r = i then set_columns ud r else r)
                      (contactSubmissions_rows s)
      in (filter (\<lambda>r. cs_id r = i) rows', s\<lparr> contactSubmissions_rows := rows' \<rparr>))"

definition updateContactSubmissionStatus ::
    "int \<Rightarrow> string \<Rightarrow> int option \<Rightarrow> int \<Rightarrow> store \<Rightarrow> contact_submission option \<times> store" where
  "updateContactSubmissionStatus i status assignedTo now s =
     (let updateData = \<lparr> ud_status = status, ud_updatedAt = now,
                          ud_assignedTo = (if truthy assignedTo then assignedTo else None) \<rparr>;
          (returned, s') = update_contactSubmissions updateData i s
      in (first_row returned, s'))"

subsection \<open>Analytics\<close>

definition createPageView :: "jobject \<Rightarrow> int \<Rightarrow> store \<Rightarrow> page_view option \<times> store" where
  "createPageView pageView now s =
     (let row = \<lparr> pv_id = pageViews_seq s, pv_path = str_col pageView ''path'',
                   pv_timestamp = now, pv_details = pageView \<rparr>
      in (first_row [row], s\<lparr> pageViews_rows := pageViews_rows s @ [row],
                               pageViews_seq := pageViews_seq s + 1 \<rparr>))"

record top_page =
  path :: "string option"
  views :: int

text \<open>
  \<open>groupBy(pageViews.path)\<close> with \<open>count()\<close>: one entry for each distinct path, with
  the number of rows on it.
\<close>

definition groupBy_path :: "page_view list \<Rightarrow> top_page list" where
  "groupBy_path rows =
     map (\<lambda>p. \<lparr> path = p, views = count_rows (filter (\<lambda>r. pv_path r = p) rows) \<rparr>)
         (remdups (map pv_path rows))"

record dashboard =
  totalVisitors :: int
  pageViews :: int
  contactForms :: int
  conversionRate :: rat
  topPages :: "top_page list"
  recentSubmissions :: "contact_submission list"
  monthlyStats :: "unit list"

text \<open>
  \<open>getAnalyticsDashboard\<close>: five queries, one after the other, on the same store state.
  \<open>tie_pages\<close> and \<open>tie_recent\<close> are the store's order among equal keys in the two
  ordered queries.
\<close>

definition getAnalyticsDashboard ::
    "(top_page \<Rightarrow> int) \<Rightarrow> (contact_submission \<Rightarrow> int) \<Rightarrow> store \<Rightarrow> dashboard" where
  "getAnalyticsDashboard tie_pages tie_recent s =
     (let totalVisitors_count = count_rows (pageViews_rows s);
          totalPageViews_count = count_rows (pageViews_rows s);
          totalContacts_count = count_rows (contactSubmissions_rows s);
          rate = (if totalVisitors_count > 0
                  then js_div (Math_round (js_mul (js_mul
                         (js_div (of_int totalContacts_count) (of_int totalVisitors_count))
                         100) 100)) 100
                  else 0);
          top = limit 5 (orderBy_desc tie_pages views (groupBy_path (pageViews_rows s)));
          recent = limit 5 (orderBy_desc tie_recent cs_createdAt (contactSubmissions_rows s))
      in \<lparr> totalVisitors = totalVisitors_count, pageViews = totalPageViews_count,
           contactForms = totalContacts_count, conversionRate = rate,
           topPages = top, recentSubmissions = recent, monthlyStats = [] \<rparr>)"

subsection \<open>Client portal\<close>

definition createClient :: "jobject \<Rightarrow> store \<Rightarrow> client option \<times> store" where
  "createClient c s =
     (let row = \<lparr> cl_id = clients_seq s, cl_details = c \<rparr>
      in (first_row [row], s\<lparr> clients_rows := clients_rows s @ [row],
                               clients_seq := clients_seq s + 1 \<rparr>))"

definition getClientProjects :: "int \<Rightarrow> store \<Rightarrow> project list" where
  "getClientProjects clientId s =
     filter (\<lambda>p. pr_clientId p = Some clientId) (projects_rows s)"

definition createProject :: "jobject \<Rightarrow> store \<Rightarrow> project option \<times> store" where
  "createProject p s =
     (let row = \<lparr> pr_id = projects_seq s, pr_clientId = num_col p ''clientId'',
                   pr_status = str_col p ''status'', pr_details = p \<rparr>
      in (first_row [row], s\<lparr> projects_rows := projects_rows s @ [row],
                               projects_seq := projects_seq s + 1 \<rparr>))"

definition getAvailableEngineers :: "store \<Rightarrow> engineer list" where
  "getAvailableEngineers s =
     filter (\<lambda>e. en_availability e = ''available'') (engineers_rows s)"

section \<open>Schema validation\<close>

text \<open>
  The insert schemas of \<open>@shared/schema\<close> are not part of the sources, so a schema is
  a parameter: the list of the fields of an object schema, each with its key, whether it
  may be absent, and the check its value must pass. \<open>parse\<close> collects one issue for
  every required key that is absent and for every value that fails its check, throws a
  \<open>ZodError\<close> carrying the issues when there is any, and otherwise returns the object
  restricted to the keys of the schema (unknown keys are stripped).
\<close>

datatype zod_issue = ZodIssue (issue_path: string) (issue_message: string)

datatype thrown = ZodError "zod_issue list" | TypeError | StoreError

record zfield =
  zname :: string
  zoptional :: bool
  zcheck :: "jval \<Rightarrow> bool"

definition check_field :: "jobject \<Rightarrow> zfield \<Rightarrow> zod_issue list" where
  "check_field obj f =
     (case obj (zname f) of
        None \<Rightarrow> if zoptional f then [] else [ZodIssue (zname f) ''Required'']
      | Some x \<Rightarrow> if zcheck f x then [] else [ZodIssue (zname f) ''Invalid input''])"

definition zod_parse :: "zfield list \<Rightarrow> jobject \<Rightarrow> thrown + jobject" where
  "zod_parse shape obj =
     (let issues = concat (map (check_field obj) shape)
      in if issues = [] then Inr (obj |` set (map zname shape)) else Inl (ZodError issues))"

definition is_num :: "jval \<Rightarrow> bool" where
  "is_num x = (case x of JNum _ \<Rightarrow> True | _ \<Rightarrow> False)"

definition is_str :: "jval \<Rightarrow> bool" where
  "is_str x = (case x of JStr _ \<Rightarrow> True | _ \<Rightarrow> False)"

section \<open>Route layer\<close>

text \<open>
  A response is its status code and the members of its JSON body; a member that is absent
  or \<open>undefined\<close> is \<open>None\<close>. \<open>payload\<close> is the member that carries the result
  (\<open>submissionId\<close>, \<open>submission\<close>, \<open>project\<close>). Each handler computes the
  outcome of its \<open>try\<close> block, a value or the thrown condition, and maps it to the
  response as its \<open>catch\<close> does.
\<close>

record 'a response =
  status_code :: nat
  success :: bool
  message :: "string option"
  errors :: "zod_issue list option"
  payload :: "'a option"

definition contact_ok_message :: string where
  "contact_ok_message =
     ''Contact form submitted successfully. We'' @ [CHR 0x27]
       @ ''ll get back to you within 48 hours!''"

text \<open>
  \<open>POST /api/contact\<close>. Reading \<open>submission.id\<close> throws a \<open>TypeError\<close> when
  \<open>submission\<close> is \<open>undefined\<close>.
\<close>

definition post_contact ::
    "zfield list \<Rightarrow> jobject \<Rightarrow> int \<Rightarrow> store \<Rightarrow> int response \<times> store" where
  "post_contact insertContactSubmissionSchema body now s =
     (let (outcome, s') =
            (case zod_parse insertContactSubmissionSchema body of
               Inl err \<Rightarrow> (Inl err, s)
             | Inr validatedData \<Rightarrow>
                 (let (submission, s1) = createContactSubmission validatedData now s
                  in case submission of
                       None \<Rightarrow> (Inl TypeError, s1)
                     | Some sub \<Rightarrow> (Inr (cs_id sub), s1)))
      in case outcome of
           Inr submissionId \<Rightarrow>
             (\<lparr> status_code = 200, success = True, message = Some contact_ok_message,
                errors = None, payload = Some submissionId \<rparr>, s')
         | Inl (ZodError issues) \<Rightarrow>
             (\<lparr> status_code = 400, success = False,
                message = Some ''Please check your form data'',
                errors = Some issues, payload = None \<rparr>, s')
         | Inl _ \<Rightarrow>
             (\<lparr> status_code = 500, success = False,
                message = Some ''An error occurred while submitting your form. Please try again.'',
                errors = None, payload = None \<rparr>, s'))"

text \<open>
  \<open>POST /api/client/projects\<close>. The object spread puts the two fixed members after
  the members of the body, so they replace a \<open>clientId\<close> or \<open>status\<close> of the body.
\<close>

definition post_client_projects ::
    "zfield list \<Rightarrow> jobject \<Rightarrow> store \<Rightarrow> project response \<times> store" where
  "post_client_projects insertProjectSchema body s =
     (let projectData = body(''clientId'' \<mapsto> JNum 1, ''status'' \<mapsto> JStr ''planning'');
          (outcome, s') =
            (case zod_parse insertProjectSchema projectData of
               Inl err \<Rightarrow> (Inl err, s)
             | Inr validatedData \<Rightarrow>
                 (let (project, s1) = createProject validatedData s in (Inr project, s1)))
      in case outcome of
           Inr project \<Rightarrow>
             (\<lparr> status_code = 200, success = True, message = None, errors = None,
                payload = project \<rparr>, s')
         | Inl (ZodError issues) \<Rightarrow>
             (\<lparr> status_code = 400, success = False, message = None,
                errors = Some issues, payload = None \<rparr>, s')
         | Inl _ \<Rightarrow>
             (\<lparr> status_code = 500, success = False,
                message = Some ''Failed to create project'', errors = None,
                payload = None \<rparr>, s'))"

text \<open>
  \<open>PATCH /api/contact-submissions/:id\<close>. \<open>parsed_id\<close> is the value of
  \<open>parseInt(req.params.id)\<close>: an integer, or \<open>NaN\<close> (\<open>None\<close>). \<open>status\<close> and
  \<open>assignedTo\<close> are the members of the body, of the types the storage function
  declares. The columns are absent from the sources: \<open>int_column\<close> tells which values
  an integer column of the store takes. The store rejects a statement that carries
  \<open>NaN\<close>, or a value no integer column takes, as the id or as the assignee it is to
  write, and the storage call throws; otherwise the call returns what
  \<open>updateContactSubmissionStatus\<close> returns.
\<close>

definition patch_contact_submission ::
    "(int \<Rightarrow> bool) \<Rightarrow> int option \<Rightarrow> string \<Rightarrow> int option \<Rightarrow> int \<Rightarrow> store
      \<Rightarrow> contact_submission response \<times> store" where
  "patch_contact_submission int_column parsed_id status assignedTo now s =
     (let (outcome, s') =
            (case parsed_id of
               None \<Rightarrow> (Inl StoreError, s)
             | Some i \<Rightarrow>
                 if int_column i
                    \<and> (case assignedTo of None \<Rightarrow> True | Some a \<Rightarrow> a = 0 \<or> int_column a)
                 then (let (submission, s1) =
                             updateContactSubmissionStatus i status assignedTo now s
                       in (Inr submission, s1))
                 else (Inl StoreError, s))
      in case outcome of
           Inr sub \<Rightarrow>
             (\<lparr> status_code = 200, success = True, message = None, errors = None,
                payload = sub \<rparr>, s')
         | Inl err \<Rightarrow>
             (\<lparr> status_code = 500, success = False,
                message = Some ''Failed to update submission'', errors = None,
                payload = None \<rparr>, s'))"

text \<open>The values of a 32-bit integer column.\<close>

definition int4 :: "int \<Rightarrow> bool" where
  "int4 i = (- 2147483648 \<le> i \<and> i \<le> 2147483647)"

section \<open>Notions used to state the properties\<close>

text \<open>The number of PageView rows on a path.\<close>

definition path_count :: "string option \<Rightarrow> store \<Rightarrow> int" where
  "path_count p s = int (length (filter (\<lambda>r. pv_path r = p) (pageViews_rows s)))"

text \<open>
  Rounding to two decimal places as the specification words it, in exact arithmetic: the
  nearest multiple of \<open>1 / 100\<close>, a tie going up as \<open>Math.round\<close> does.
\<close>

definition round_2dp :: "rat \<Rightarrow> rat" where
  "round_2dp x = of_int \<lfloor>x * 100 + 1 / 2\<rfloor> / 100"

definition spec_conversionRate :: "int \<Rightarrow> int \<Rightarrow> rat" where
  "spec_conversionRate contacts visitors =
     (if visitors > 0 then round_2dp (of_int contacts / of_int visitors * 100) else 0)"

text \<open>
  The identifiers of the ContactSubmission rows are pairwise different and below the next
  value of the sequence: what the primary key and the sequence guarantee.
\<close>

definition ids_unique :: "store \<Rightarrow> bool" where
  "ids_unique s =
     (distinct (map cs_id (contactSubmissions_rows s))
      \<and> list_all (\<lambda>r. cs_id r < contactSubmissions_seq s) (contactSubmissions_rows s))"

text \<open>The place of a row in a list, as a tie order.\<close>

definition position :: "'a list \<Rightarrow> 'a \<Rightarrow> int" where
  "position ys r = int (length (takeWhile (\<lambda>x. x \<noteq> r) ys))"

section \<open>Example states\<close>

definition contact_schema :: "zfield list" where
  "contact_schema =
     [\<lparr> zname = ''name'', zoptional = False, zcheck = is_str \<rparr>,
      \<lparr> zname = ''email'', zoptional = False, zcheck = is_str \<rparr>,
      \<lparr> zname = ''company'', zoptional = True, zcheck = is_str \<rparr>,
      \<lparr> zname = ''message'', zoptional = False, zcheck = is_str \<rparr>]"

definition ada_body :: jobject where
  "ada_body = [''name'' \<mapsto> JStr ''Ada'', ''email'' \<mapsto> JStr ''ada@example.org'',
               ''message'' \<mapsto> JStr ''Hello'']"

definition bob_body :: jobject where
  "bob_body = [''name'' \<mapsto> JStr ''Bob'', ''email'' \<mapsto> JStr ''bob@example.org'']"

definition one_submission :: store where
  "one_submission = snd (createContactSubmission ada_body 1000 empty_store)"

definition two_submissions :: store where
  "two_submissions = snd (createContactSubmission bob_body 2000 one_submission)"

definition assigned_submission :: store where
  "assigned_submission =
     snd (updateContactSubmissionStatus 2 ''in-progress'' (Some 5) 3000 two_submissions)"

definition submission_at :: "int \<Rightarrow> int \<Rightarrow> contact_submission" where
  "submission_at i t = \<lparr> cs_id = i, cs_details = Map.empty, cs_status = ''new'',
                          cs_assignedTo = None, cs_createdAt = t, cs_updatedAt = t \<rparr>"

definition seven_submissions :: store where
  "seven_submissions = empty_store\<lparr> contactSubmissions_rows :=
     [submission_at 1 30, submission_at 2 10, submission_at 3 40, submission_at 4 15,
      submission_at 5 50, submission_at 6 90, submission_at 7 20] \<rparr>"

definition same_time_submissions :: store where
  "same_time_submissions = empty_store\<lparr> contactSubmissions_rows :=
     [submission_at 1 10, submission_at 2 10, submission_at 3 10, submission_at 4 10,
      submission_at 5 10, submission_at 6 10] \<rparr>"

definition highest_id_first :: "contact_submission \<Rightarrow> int" where
  "highest_id_first r = - cs_id r"

definition visit :: "string \<Rightarrow> store \<Rightarrow> store" where
  "visit p s = snd (createPageView [''path'' \<mapsto> JStr p] 0 s)"

definition six_page_views :: store where
  "six_page_views =
     visit ''/a'' (visit ''/b'' (visit ''/a'' (visit ''/a'' (visit ''/b'' (visit ''/a'' empty_store)))))"

definition many_rows :: store where
  "many_rows = empty_store\<lparr>
     contactSubmissions_rows := map (\<lambda>i. submission_at (int i) (int i)) [1..<24],
     pageViews_rows := map (\<lambda>i. \<lparr> pv_id = int i, pv_path = Some ''/'', pv_timestamp = int i,
                                    pv_details = Map.empty \<rparr>) [1..<161] \<rparr>"

definition view_on :: "int \<Rightarrow> string \<Rightarrow> page_view" where
  "view_on i p = \<lparr> pv_id = i, pv_path = Some p, pv_timestamp = i, pv_details = Map.empty \<rparr>"

definition seven_paths :: store where
  "seven_paths = empty_store\<lparr> pageViews_rows :=
     [view_on 1 ''/p1'', view_on 2 ''/p2'', view_on 3 ''/p3'', view_on 4 ''/p4'',
      view_on 5 ''/p2'', view_on 6 ''/p5'', view_on 7 ''/p4'', view_on 8 ''/p6'',
      view_on 9 ''/p7'', view_on 10 ''/p4'', view_on 11 ''/p6''] \<rparr>"

definition project_schema :: "zfield list" where
  "project_schema =
     [\<lparr> zname = ''name'', zoptional = False, zcheck = is_str \<rparr>,
      \<lparr> zname = ''clientId'', zoptional = False, zcheck = is_num \<rparr>,
      \<lparr> zname = ''status'', zoptional = True, zcheck = is_str \<rparr>]"

definition project_body :: jobject where
  "project_body = [''name'' \<mapsto> JStr ''Portal'', ''clientId'' \<mapsto> JNum 99,
                   ''status'' \<mapsto> JStr ''done'']"

definition other_project :: store where
  "other_project = snd (createProject [''name'' \<mapsto> JStr ''Legacy'', ''clientId'' \<mapsto> JNum 7]
                                      empty_store)"

definition two_engineers :: store where
  "two_engineers = empty_store\<lparr> engineers_rows :=
     [\<lparr> en_id = 1, en_availability = ''available'', en_details = Map.empty \<rparr>,
      \<lparr> en_id = 2, en_availability = ''busy'', en_details = Map.empty \<rparr>] \<rparr>"

section \<open>Facts about the query building blocks\<close>

lemma mset_orderBy_desc: "mset (orderBy_desc t f rows) = mset rows"
  by (simp add: orderBy_desc_def)

lemma set_orderBy_desc: "set (orderBy_desc t f rows) = set rows"
  by (simp add: orderBy_desc_def)

lemma sorted_orderBy_desc: "sorted_wrt (\<lambda>a b. f b \<le> f a) (orderBy_desc t f rows)"
proof -
  have "sorted (map (\<lambda>r. - f r) (orderBy_desc t f rows))"
    by (simp add: orderBy_desc_def)
  then show ?thesis
    by (simp add: sorted_wrt_map)
qed

lemma sorted_wrt_take_drop:
  "sorted_wrt P xs \<Longrightarrow> a \<in> set (take n xs) \<Longrightarrow> b \<in> set (drop n xs) \<Longrightarrow> P a b"
  by (metis append_take_drop_id sorted_wrt_append)

lemma distinct_map_orderBy_desc:
  "distinct (map g (orderBy_desc t f rows)) = distinct (map g rows)"
proof -
  have "mset (map g (orderBy_desc t f rows)) = mset (map g rows)"
    by (simp add: mset_orderBy_desc)
  then show ?thesis by (rule mset_eq_imp_distinct_iff)
qed

text \<open>With pairwise different keys the store has no choice.\<close>

lemma keys_orderBy_desc:
  "map f (orderBy_desc t1 f rows) = map f (orderBy_desc t2 f rows)"
proof -
  let ?g = "\<lambda>r. - f r"
  have "\<And>t. map ?g (orderBy_desc t f rows) = sort (map ?g rows)"
  proof -
    fix t
    have "mset (map ?g (orderBy_desc t f rows)) = mset (map ?g rows)"
      by (simp add: mset_orderBy_desc)
    moreover have "sorted (map ?g (orderBy_desc t f rows))"
      by (simp add: orderBy_desc_def)
    ultimately show "map ?g (orderBy_desc t f rows) = sort (map ?g rows)"
      by (rule properties_for_sort [symmetric])
  qed
  then have "map ?g (orderBy_desc t1 f rows) = map ?g (orderBy_desc t2 f rows)" by simp
  then have "map uminus (map ?g (orderBy_desc t1 f rows))
               = map uminus (map ?g (orderBy_desc t2 f rows))" by simp
  then show ?thesis by (simp add: comp_def)
qed

lemma orderBy_desc_unique:
  assumes "distinct (map f rows)"
  shows "orderBy_desc t1 f rows = orderBy_desc t2 f rows"
proof -
  have "inj_on f (set rows)" using assms by (simp add: distinct_map)
  then have "inj_on f (set (orderBy_desc t1 f rows) \<union> set (orderBy_desc t2 f rows))"
    by (simp add: set_orderBy_desc)
  with keys_orderBy_desc [of f t1 rows t2] show ?thesis by (rule map_inj_on)
qed

text \<open>
  Every list of the rows in descending order of the key is the result under some tie
  order (the rows of a table are pairwise different: they differ in their identifiers).
\<close>

lemma position_nth:
  assumes "distinct ys" "i < length ys"
  shows "position ys (ys ! i) = int i"
proof -
  have "takeWhile (\<lambda>x. x \<noteq> ys ! i) ys = take i ys"
  proof (rule takeWhile_eq_take_P_nth)
    fix j assume "j < i" "j < length ys"
    with assms show "ys ! j \<noteq> ys ! i" by (simp add: nth_eq_iff_index_eq)
  next
    show "\<not> ys ! i \<noteq> ys ! i" by simp
  qed
  with assms(2) show ?thesis by (simp add: position_def)
qed

lemma map_position: "distinct ys \<Longrightarrow> map (position ys) ys = map int [0..<length ys]"
  by (rule nth_equalityI) (simp_all add: position_nth)

lemma filter_eq_singleton:
  "distinct zs \<Longrightarrow> k \<in> set zs \<Longrightarrow> filter (\<lambda>x. x = k) zs = [k]"
  by (induction zs) (auto simp: filter_empty_conv)

lemma sort_key_position:
  assumes "distinct rows" "mset ys = mset rows"
  shows "sort_key (position ys) rows = ys"
proof (rule properties_for_sort_key)
  show "mset ys = mset rows" by fact
  have dy: "distinct ys" using assms by (metis mset_eq_imp_distinct_iff)
  have "sorted (map int [0..<length ys])" by (simp add: sorted_map)
  then show "sorted (map (position ys) ys)" by (simp add: map_position [OF dy])
  have inj: "inj_on (position ys) (set ys)"
  proof -
    have "distinct (map (position ys) ys)"
      unfolding map_position [OF dy] by (simp add: distinct_map inj_on_def)
    then show ?thesis by (simp add: distinct_map)
  qed
  fix k assume k: "k \<in> set ys"
  have s: "set rows = set ys" using assms(2) by (metis set_mset_mset)
  have "\<And>zs. distinct zs \<Longrightarrow> set zs = set ys \<Longrightarrow>
          filter (\<lambda>x. position ys k = position ys x) zs = [k]"
  proof -
    fix zs assume z: "distinct zs" "set zs = set ys"
    have "filter (\<lambda>x. position ys k = position ys x) zs = filter (\<lambda>x. x = k) zs"
      using inj k z(2) by (intro filter_cong) (auto simp: inj_on_def)
    also have "\<dots> = [k]"
      using z k by (simp add: filter_eq_singleton)
    finally show "filter (\<lambda>x. position ys k = position ys x) zs = [k]" .
  qed
  from this [OF dy refl] this [OF assms(1) s]
  show "filter (\<lambda>x. position ys k = position ys x) ys
          = filter (\<lambda>x. position ys k = position ys x) rows" by simp
qed

lemma orderBy_desc_reaches:
  assumes "distinct rows" "mset ys = mset rows" "sorted_wrt (\<lambda>a b. f b \<le> f a) ys"
  shows "orderBy_desc (position ys) f rows = ys"
proof -
  have "sorted (map (\<lambda>r. - f r) ys)" using assms(3) by (simp add: sorted_wrt_map)
  then have "sort_key (\<lambda>r. - f r) ys = ys" by (rule sort_key_id_if_sorted)
  then show ?thesis by (simp add: orderBy_desc_def sort_key_position [OF assms(1,2)])
qed

lemma distinct_map_take: "distinct (map g xs) \<Longrightarrow> distinct (map g (take n xs))"
  by (simp add: take_map [symmetric])

lemma length_filter_map:
  "length (filter (\<lambda>r. f r = p) rows) = count (mset (map f rows)) p"
  by (induction rows) auto

section \<open>Updating a contact submission\<close>

lemma update_no_match:
  "\<forall>r \<in> set rows. cs_id r \<noteq> i \<Longrightarrow>
   map (\<lambda>r. if cs_id r = i then g r else r) rows = rows"
  by (induction rows) auto

lemma filter_no_match:
  "\<forall>r \<in> set rows. cs_id r \<noteq> i \<Longrightarrow> filter (\<lambda>r. cs_id r = i) rows = []"
  by (induction rows) auto

lemma update_distinct:
  assumes "distinct (map cs_id rows)" "k < length rows" "cs_id (rows ! k) = i"
  shows "map (\<lambda>r. if cs_id r = i then g r else r) rows = rows[k := g (rows ! k)]"
  using assms
proof (induction rows arbitrary: k)
  case Nil
  then show ?case by simp
next
  case (Cons a rows)
  show ?case
  proof (cases k)
    case 0
    with Cons.prems have "\<forall>r \<in> set rows. cs_id r \<noteq> i" by (auto simp: image_iff)
    with 0 Cons.prems show ?thesis by (simp add: update_no_match)
  next
    case (Suc j)
    with Cons.prems have "rows ! j \<in> set rows" by simp
    with Suc Cons.prems have "cs_id a \<noteq> i" by (auto simp: image_iff)
    with Suc Cons show ?thesis by simp
  qed
qed

lemma filter_distinct:
  assumes "distinct (map cs_id rows)" "k < length rows" "cs_id (rows ! k) = i"
  shows "filter (\<lambda>r. cs_id r = i) rows = [rows ! k]"
  using assms
proof (induction rows arbitrary: k)
  case Nil
  then show ?case by simp
next
  case (Cons a rows)
  show ?case
  proof (cases k)
    case 0
    with Cons.prems have "\<forall>r \<in> set rows. cs_id r \<noteq> i" by (auto simp: image_iff)
    with 0 Cons.prems show ?thesis by (simp add: filter_no_match)
  next
    case (Suc j)
    with Cons.prems have "rows ! j \<in> set rows" by simp
    with Suc Cons.prems have "cs_id a \<noteq> i" by (auto simp: image_iff)
    with Suc Cons show ?thesis by simp
  qed
qed

lemma cs_id_set_columns: "cs_id (set_columns ud r) = cs_id r"
  by (simp add: set_columns_def Let_def split: option.splits)

lemma map_cs_id_update:
  "map cs_id (map (\<lambda>r. if cs_id r = i then set_columns ud r else r) rows) = map cs_id rows"
  by (induction rows) (auto simp: cs_id_set_columns)

lemma update_existing:
  assumes "k < length (contactSubmissions_rows s)"
    and "contactSubmissions_rows s ! k = r"
    and "cs_id r = i"
    and "distinct (map cs_id (contactSubmissions_rows s))"
  shows "update_contactSubmissions ud i s =
           ([set_columns ud r],
            s\<lparr> contactSubmissions_rows := (contactSubmissions_rows s)[k := set_columns ud r] \<rparr>)"
proof -
  let ?rows = "contactSubmissions_rows s"
  have id_k: "cs_id (?rows ! k) = i" using assms by simp
  have upd: "map (\<lambda>r. if cs_id r = i then set_columns ud r else r) ?rows
                = ?rows[k := set_columns ud r]"
    using update_distinct [OF assms(4) assms(1) id_k] assms(2) by simp
  have d: "distinct (map cs_id (?rows[k := set_columns ud r]))"
    using map_cs_id_update [of i ud ?rows] upd assms(4) by simp
  have "filter (\<lambda>r. cs_id r = i) (?rows[k := set_columns ud r])
          = [?rows[k := set_columns ud r] ! k]"
    by (rule filter_distinct [OF d]) (use assms in \<open>simp_all add: cs_id_set_columns\<close>)
  then have flt: "filter (\<lambda>r. cs_id r = i) (?rows[k := set_columns ud r]) = [set_columns ud r]"
    using assms(1) by simp
  show ?thesis
    by (simp add: update_contactSubmissions_def Let_def upd flt)
qed

text \<open>Every operation on the table keeps its identifiers unique.\<close>

lemma ids_unique_empty: "ids_unique empty_store"
  by (simp add: ids_unique_def empty_store_def)

lemma ids_unique_create:
  assumes "ids_unique s"
  shows "ids_unique (snd (createContactSubmission v now s))"
proof -
  have "\<forall>r \<in> set (contactSubmissions_rows s). cs_id r < contactSubmissions_seq s"
    using assms by (simp add: ids_unique_def list_all_iff)
  then have "contactSubmissions_seq s \<notin> cs_id ` set (contactSubmissions_rows s)"
    and "\<forall>r \<in> set (contactSubmissions_rows s). cs_id r < contactSubmissions_seq s + 1"
    by fastforce+
  with assms show ?thesis
    by (simp add: ids_unique_def createContactSubmission_def insert_contactSubmission_def
        Let_def list_all_iff)
qed

lemma ids_unique_update:
  assumes "ids_unique s"
  shows "ids_unique (snd (updateContactSubmissionStatus i st a now s))"
proof -
  let ?rows' = "contactSubmissions_rows (snd (updateContactSubmissionStatus i st a now s))"
  define ud where "ud = \<lparr> ud_status = st, ud_updatedAt = now,
                             ud_assignedTo = (if truthy a then a else None) \<rparr>"
  have r: "?rows' = map (\<lambda>r. if cs_id r = i then set_columns ud r else r)
                        (contactSubmissions_rows s)"
    by (simp add: updateContactSubmissionStatus_def update_contactSubmissions_def Let_def
        ud_def)
  have m: "map cs_id ?rows' = map cs_id (contactSubmissions_rows s)"
    unfolding r by (rule map_cs_id_update)
  have q: "contactSubmissions_seq (snd (updateContactSubmissionStatus i st a now s))
              = contactSubmissions_seq s"
    by (simp add: updateContactSubmissionStatus_def update_contactSubmissions_def Let_def)
  have "list_all (\<lambda>r. cs_id r < contactSubmissions_seq s) ?rows'
          = list_all (\<lambda>n. n < contactSubmissions_seq s) (map cs_id ?rows')"
    by (simp add: list_all_iff)
  also have "\<dots> = list_all (\<lambda>r. cs_id r < contactSubmissions_seq s) (contactSubmissions_rows s)"
    unfolding m by (simp add: list_all_iff)
  finally show ?thesis using assms unfolding ids_unique_def m q by simp
qed

lemma one_submission_rows:
  "contactSubmissions_rows one_submission =
     [\<lparr> cs_id = 1, cs_details = ada_body, cs_status = ''new'', cs_assignedTo = None,
        cs_createdAt = 1000, cs_updatedAt = 1000 \<rparr>]"
  by (simp add: one_submission_def createContactSubmission_def insert_contactSubmission_def
      empty_store_def Let_def ada_body_def str_col_def num_col_def)

lemma one_submission_seq: "contactSubmissions_seq one_submission = 2"
  by (simp add: one_submission_def createContactSubmission_def insert_contactSubmission_def
      empty_store_def Let_def)

lemma two_submissions_rows:
  "contactSubmissions_rows two_submissions =
     [\<lparr> cs_id = 1, cs_details = ada_body, cs_status = ''new'', cs_assignedTo = None,
        cs_createdAt = 1000, cs_updatedAt = 1000 \<rparr>,
      \<lparr> cs_id = 2, cs_details = bob_body, cs_status = ''new'', cs_assignedTo = None,
        cs_createdAt = 2000, cs_updatedAt = 2000 \<rparr>]"
  by (simp add: two_submissions_def createContactSubmission_def insert_contactSubmission_def
      one_submission_rows one_submission_seq Let_def bob_body_def str_col_def num_col_def)

lemma assigned_submission_rows:
  "contactSubmissions_rows assigned_submission =
     [\<lparr> cs_id = 1, cs_details = ada_body, cs_status = ''new'', cs_assignedTo = None,
        cs_createdAt = 1000, cs_updatedAt = 1000 \<rparr>,
      \<lparr> cs_id = 2, cs_details = bob_body, cs_status = ''in-progress'', cs_assignedTo = Some 5,
        cs_createdAt = 2000, cs_updatedAt = 3000 \<rparr>]"
  by (simp add: assigned_submission_def updateContactSubmissionStatus_def
      update_contactSubmissions_def two_submissions_rows Let_def truthy_def set_columns_def)

text \<open>The route answers 500 when the store rejects the statement.\<close>

lemma patch_rejected_by_store:
  "status_code (fst (patch_contact_submission int4 None st a now s)) = 500"
  "status_code (fst (patch_contact_submission int4 (Some 2147483648) st a now s)) = 500"
  by (simp_all add: patch_contact_submission_def int4_def)

text \<open>
  C1. The claim: for an id that is the id of no ContactSubmission row,
  \<open>updateContactSubmissionStatus\<close> fails and the PATCH route answers 500. The code at
  such an id: the store holds one submission, with id 1; updating id 2 returns no row
  (\<open>undefined\<close>) and no failure, the store is unchanged, and the route answers 200 with
  \<open>success: true\<close> and no \<open>submission\<close> member.
\<close>

theorem update_of_missing_id_answers_200:
  "map cs_id (contactSubmissions_rows one_submission) = [1]
   \<and> updateContactSubmissionStatus 2 ''closed'' None 2000 one_submission = (None, one_submission)
   \<and> patch_contact_submission int4 (Some 2) ''closed'' None 2000 one_submission =
        (\<lparr> status_code = 200, success = True, message = None, errors = None,
           payload = None \<rparr>, one_submission)"
  by (simp add: one_submission_rows updateContactSubmissionStatus_def
      update_contactSubmissions_def patch_contact_submission_def Let_def first_row_def
      int4_def)

text \<open>
  C2. Let \<open>i\<close> be the id of the row \<open>r\<close> of the ContactSubmission table, ids being
  unique. \<open>updateContactSubmissionStatus(i, status)\<close> without an assignee returns \<open>r\<close>
  with \<open>status\<close> set to the given value and \<open>updatedAt\<close> to the current time and every
  other field, \<open>assignedTo\<close> among them, as before; the table afterwards is the old
  table with that row in the place of \<open>r\<close>, and the rest of the store is unchanged. A
  falsy assignee (\<open>0\<close>) behaves as none; any other assignee is written as well.
\<close>

theorem update_status_without_assignee:
  assumes "k < length (contactSubmissions_rows s)"
    and "contactSubmissions_rows s ! k = r"
    and "cs_id r = i"
    and "distinct (map cs_id (contactSubmissions_rows s))"
  shows "updateContactSubmissionStatus i status None now s =
           (Some (r\<lparr> cs_status := status, cs_updatedAt := now \<rparr>),
            s\<lparr> contactSubmissions_rows :=
                 (contactSubmissions_rows s)[k := r\<lparr> cs_status := status, cs_updatedAt := now \<rparr>] \<rparr>)
    \<and> updateContactSubmissionStatus i status (Some 0) now s =
           updateContactSubmissionStatus i status None now s
    \<and> (a \<noteq> 0 \<longrightarrow> updateContactSubmissionStatus i status (Some a) now s =
           (Some (r\<lparr> cs_status := status, cs_updatedAt := now, cs_assignedTo := Some a \<rparr>),
            s\<lparr> contactSubmissions_rows :=
                 (contactSubmissions_rows s)[k := r\<lparr> cs_status := status, cs_updatedAt := now,
                                                      cs_assignedTo := Some a \<rparr>] \<rparr>))"
  by (simp add: updateContactSubmissionStatus_def update_existing [OF assms] Let_def
      first_row_def truthy_def set_columns_def)

theorem update_status_without_assignee_witness:
  "1 < length (contactSubmissions_rows assigned_submission)
   \<and> cs_id (contactSubmissions_rows assigned_submission ! 1) = 2
   \<and> distinct (map cs_id (contactSubmissions_rows assigned_submission))
   \<and> fst (updateContactSubmissionStatus 2 ''closed'' None 4000 assigned_submission) =
        Some \<lparr> cs_id = 2, cs_details = bob_body, cs_status = ''closed'', cs_assignedTo = Some 5,
               cs_createdAt = 2000, cs_updatedAt = 4000 \<rparr>
   \<and> map cs_status (contactSubmissions_rows
         (snd (updateContactSubmissionStatus 2 ''closed'' None 4000 assigned_submission)))
        = [''new'', ''closed'']
   \<and> map_option cs_assignedTo
         (fst (updateContactSubmissionStatus 2 ''closed'' (Some 7) 4000 assigned_submission))
        = Some (Some 7)"
proof -
  let ?r = "contactSubmissions_rows assigned_submission ! 1"
  have h1: "1 < length (contactSubmissions_rows assigned_submission)"
    and h3: "cs_id ?r = 2"
    and h4: "distinct (map cs_id (contactSubmissions_rows assigned_submission))"
    by (simp_all add: assigned_submission_rows)
  from update_status_without_assignee [OF h1 refl h3 h4, of "''closed''" 4000 7]
  show ?thesis using h1 h3 h4 by (simp add: assigned_submission_rows)
qed


section \<open>The dashboard's counts\<close>

text \<open>
  C3. For every store state, the dashboard's \<open>pageViews\<close> and \<open>totalVisitors\<close> are
  equal, and both are the number of PageView rows.
\<close>

theorem dashboard_pageViews_eq_totalVisitors:
  "pageViews (getAnalyticsDashboard tp tr s) = totalVisitors (getAnalyticsDashboard tp tr s)
   \<and> totalVisitors (getAnalyticsDashboard tp tr s) = int (length (pageViews_rows s))"
  by (simp add: getAnalyticsDashboard_def count_rows_def Let_def)


section \<open>Submitting the contact form\<close>

lemma zod_parse_missing:
  assumes "f \<in> set shape" "\<not> zoptional f" "obj (zname f) = None"
  shows "\<exists>issues. issues \<noteq> [] \<and> zod_parse shape obj = Inl (ZodError issues)"
proof -
  have "check_field obj f \<noteq> []" using assms by (simp add: check_field_def)
  with assms(1) have "concat (map (check_field obj) shape) \<noteq> []" by auto
  then show ?thesis by (simp add: zod_parse_def Let_def)
qed

lemma zod_parse_keeps:
  assumes "zod_parse shape obj = Inr v" "k \<in> zname ` set shape"
  shows "v k = obj k"
  using assms by (auto simp: zod_parse_def Let_def restrict_map_def split: if_splits)

lemma ada_parse:
  "zod_parse contact_schema ada_body = Inr (ada_body |` set (map zname contact_schema))"
  by (simp add: zod_parse_def contact_schema_def ada_body_def check_field_def is_str_def)

text \<open>
  C5. When the body validates against the contact-submission schema, \<open>POST /api/contact\<close>
  answers 200 with \<open>success: true\<close> and a \<open>submissionId\<close> that is the id of a row
  which \<open>getContactSubmissions()\<close> returns afterwards (the row holding the validated
  data). When the body lacks a field the schema requires, the route answers 400 with
  \<open>success: false\<close> and a non-empty \<open>errors\<close> list, and stores nothing.
\<close>

theorem post_contact_responses:
  "(zod_parse schema body = Inr v \<longrightarrow>
      (\<exists>r s'. post_contact schema body now s =
          (\<lparr> status_code = 200, success = True, message = Some contact_ok_message,
             errors = None, payload = Some (cs_id r) \<rparr>, s')
        \<and> r \<in> set (getContactSubmissions t s') \<and> cs_details r = v))
   \<and> (f \<in> set schema \<and> \<not> zoptional f \<and> body (zname f) = None \<longrightarrow>
      (\<exists>issues. issues \<noteq> [] \<and> post_contact schema body now s =
          (\<lparr> status_code = 400, success = False, message = Some ''Please check your form data'',
             errors = Some issues, payload = None \<rparr>, s)))"
proof (intro conjI impI)
  assume "zod_parse schema body = Inr v"
  then show "\<exists>r s'. post_contact schema body now s =
          (\<lparr> status_code = 200, success = True, message = Some contact_ok_message,
             errors = None, payload = Some (cs_id r) \<rparr>, s')
        \<and> r \<in> set (getContactSubmissions t s') \<and> cs_details r = v"
    by (force simp: post_contact_def createContactSubmission_def insert_contactSubmission_def
        Let_def first_row_def getContactSubmissions_def set_orderBy_desc)
next
  assume "f \<in> set schema \<and> \<not> zoptional f \<and> body (zname f) = None"
  then obtain issues where "issues \<noteq> []" "zod_parse schema body = Inl (ZodError issues)"
    using zod_parse_missing by blast
  then show "\<exists>issues. issues \<noteq> [] \<and> post_contact schema body now s =
          (\<lparr> status_code = 400, success = False, message = Some ''Please check your form data'',
             errors = Some issues, payload = None \<rparr>, s)"
    by (simp add: post_contact_def Let_def)
qed

theorem post_contact_responses_witness:
  "zod_parse contact_schema ada_body = Inr (ada_body |` set (map zname contact_schema))
   \<and> status_code (fst (post_contact contact_schema ada_body 5000 one_submission)) = 200
   \<and> payload (fst (post_contact contact_schema ada_body 5000 one_submission)) = Some 2
   \<and> 2 \<in> cs_id ` set (getContactSubmissions cs_id
                           (snd (post_contact contact_schema ada_body 5000 one_submission)))
   \<and> \<lparr> zname = ''message'', zoptional = False, zcheck = is_str \<rparr> \<in> set contact_schema
   \<and> bob_body ''message'' = None
   \<and> status_code (fst (post_contact contact_schema bob_body 5000 one_submission)) = 400
   \<and> errors (fst (post_contact contact_schema bob_body 5000 one_submission))
        = Some [ZodIssue ''message'' ''Required'']"
proof -
  let ?f = "\<lparr> zname = ''message'', zoptional = False, zcheck = is_str \<rparr>"
  have h: "?f \<in> set contact_schema \<and> \<not> zoptional ?f \<and> bob_body (zname ?f) = None"
    by (simp add: contact_schema_def bob_body_def)
  have bob: "zod_parse contact_schema bob_body = Inl (ZodError [ZodIssue ''message'' ''Required''])"
    by (simp add: zod_parse_def contact_schema_def bob_body_def check_field_def is_str_def)
  from post_contact_responses [where schema = contact_schema and body = ada_body
      and now = 5000 and s = one_submission and t = cs_id] ada_parse
  obtain r s' where ok: "post_contact contact_schema ada_body 5000 one_submission =
          (\<lparr> status_code = 200, success = True, message = Some contact_ok_message,
             errors = None, payload = Some (cs_id r) \<rparr>, s')"
    and r: "r \<in> set (getContactSubmissions cs_id s')"
    by blast
  have id2: "payload (fst (post_contact contact_schema ada_body 5000 one_submission)) = Some 2"
    by (simp add: post_contact_def ada_parse createContactSubmission_def
        insert_contactSubmission_def Let_def first_row_def one_submission_seq)
  with ok have "cs_id r = 2" by simp
  with r ok have "2 \<in> cs_id ` set (getContactSubmissions cs_id
                           (snd (post_contact contact_schema ada_body 5000 one_submission)))"
    by auto
  moreover from post_contact_responses [where schema = contact_schema and body = bob_body
      and f = ?f and v = Map.empty and now = 5000 and s = one_submission] h
  have "status_code (fst (post_contact contact_schema bob_body 5000 one_submission)) = 400"
    by force
  moreover have "errors (fst (post_contact contact_schema bob_body 5000 one_submission))
        = Some [ZodIssue ''message'' ''Required'']"
    by (simp add: post_contact_def bob Let_def)
  ultimately show ?thesis using ok id2 h ada_parse by simp
qed

section \<open>The dashboard's lists\<close>

lemma path_groupBy_path: "map path (groupBy_path rows) = remdups (map pv_path rows)"
  by (simp add: groupBy_path_def comp_def)

lemma groupBy_path_entry:
  "e \<in> set (groupBy_path rows) \<Longrightarrow>
     path e \<in> pv_path ` set rows
     \<and> views e = int (length (filter (\<lambda>r. pv_path r = path e) rows))"
  by (auto simp: groupBy_path_def count_rows_def)

lemma groupBy_path_complete:
  "p \<in> pv_path ` set rows \<Longrightarrow> \<exists>e \<in> set (groupBy_path rows). path e = p"
  by (auto simp: groupBy_path_def)

lemma topPages_eq:
  "topPages (getAnalyticsDashboard tp tr s)
     = take 5 (orderBy_desc tp views (groupBy_path (pageViews_rows s)))"
  by (simp add: getAnalyticsDashboard_def Let_def limit_def)

lemma topPages_general:
  "length (topPages (getAnalyticsDashboard tp tr s)) \<le> 5
   \<and> distinct (map path (topPages (getAnalyticsDashboard tp tr s)))
   \<and> (\<forall>e \<in> set (topPages (getAnalyticsDashboard tp tr s)).
         path e \<in> pv_path ` set (pageViews_rows s) \<and> views e = path_count (path e) s)
   \<and> sorted_wrt (\<lambda>a b. views b \<le> views a) (topPages (getAnalyticsDashboard tp tr s))
   \<and> (\<forall>p \<in> pv_path ` set (pageViews_rows s).
         p \<notin> path ` set (topPages (getAnalyticsDashboard tp tr s)) \<longrightarrow>
           length (topPages (getAnalyticsDashboard tp tr s)) = 5
           \<and> (\<forall>e \<in> set (topPages (getAnalyticsDashboard tp tr s)). path_count p s \<le> views e))"
proof -
  let ?rows = "pageViews_rows s"
  let ?all = "orderBy_desc tp views (groupBy_path ?rows)"
  let ?tp = "topPages (getAnalyticsDashboard tp tr s)"
  have tp: "?tp = take 5 ?all" by (rule topPages_eq)
  have len: "length ?tp \<le> 5" by (simp add: tp)
  have "distinct (map path (groupBy_path ?rows))" by (simp add: path_groupBy_path)
  then have dist: "distinct (map path ?tp)"
    unfolding tp by (intro distinct_map_take) (simp add: distinct_map_orderBy_desc)
  have srt_all: "sorted_wrt (\<lambda>a b. views b \<le> views a) ?all" by (rule sorted_orderBy_desc)
  then have srt: "sorted_wrt (\<lambda>a b. views b \<le> views a) ?tp"
    unfolding tp by (rule sorted_wrt_take)
  have sub: "set ?tp \<subseteq> set (groupBy_path ?rows)"
    unfolding tp using set_take_subset [of 5 ?all] by (simp add: set_orderBy_desc)
  have ent: "\<forall>e \<in> set ?tp. path e \<in> pv_path ` set ?rows \<and> views e = path_count (path e) s"
    using sub groupBy_path_entry [of _ ?rows] by (auto simp: path_count_def)
  have top: "\<forall>p \<in> pv_path ` set ?rows. p \<notin> path ` set ?tp \<longrightarrow>
           length ?tp = 5 \<and> (\<forall>e \<in> set ?tp. path_count p s \<le> views e)"
  proof (intro ballI impI)
    fix p assume p: "p \<in> pv_path ` set ?rows" and notin: "p \<notin> path ` set ?tp"
    from groupBy_path_complete [OF p]
    obtain g where g: "g \<in> set (groupBy_path ?rows)" "path g = p"
      by blast
    then have "g \<in> set ?all" by (simp add: set_orderBy_desc)
    then have "g \<in> set (take 5 ?all) \<union> set (drop 5 ?all)"
      by (metis append_take_drop_id set_append)
    with notin g(2) have gd: "g \<in> set (drop 5 ?all)" unfolding tp by auto
    then have "5 < length ?all" by (cases "5 < length ?all") auto
    then have l5: "length ?tp = 5" by (simp add: tp)
    have "views g = path_count p s"
      using groupBy_path_entry [OF g(1)] g(2) by (simp add: path_count_def)
    moreover have "\<forall>e \<in> set ?tp. views g \<le> views e"
      unfolding tp using sorted_wrt_take_drop [OF srt_all _ gd] by blast
    ultimately show "length ?tp = 5 \<and> (\<forall>e \<in> set ?tp. path_count p s \<le> views e)"
      using l5 by simp
  qed
  from len dist ent srt top show ?thesis by blast
qed

lemma topPages_scenario:
  assumes "mset (map pv_path (pageViews_rows s))
             = replicate_mset 4 (Some ''/a'') + replicate_mset 2 (Some ''/b'')"
  shows "topPages (getAnalyticsDashboard tp tr s)
           = [\<lparr> path = Some ''/a'', views = 4 \<rparr>, \<lparr> path = Some ''/b'', views = 2 \<rparr>]"
proof -
  let ?rows = "pageViews_rows s"
  let ?a = "Some ''/a'' :: string option" and ?b = "Some ''/b'' :: string option"
  have ca: "count_rows (filter (\<lambda>r. pv_path r = ?a) ?rows) = 4"
    and cb: "count_rows (filter (\<lambda>r. pv_path r = ?b) ?rows) = 2"
    unfolding count_rows_def length_filter_map assms by simp_all
  have "set (map pv_path ?rows) = set_mset (mset (map pv_path ?rows))" by simp
  also have "\<dots> = {?a, ?b}" unfolding assms by auto
  finally have st: "set (remdups (map pv_path ?rows)) = {?a, ?b}" by simp
  have "remdups (map pv_path ?rows) = [?a, ?b] \<or> remdups (map pv_path ?rows) = [?b, ?a]"
  proof -
    have "length (remdups (map pv_path ?rows)) = card {?a, ?b}"
      using st distinct_card [of "remdups (map pv_path ?rows)"] by simp
    then have "length (remdups (map pv_path ?rows)) = 2" by simp
    then obtain x y where xy: "remdups (map pv_path ?rows) = [x, y]"
      by (metis (no_types) length_0_conv length_Suc_conv numeral_2_eq_2)
    with st have "{x, y} = {?a, ?b}" by simp
    then have "(x = ?a \<and> y = ?b) \<or> (x = ?b \<and> y = ?a)" by (auto simp: doubleton_eq_iff)
    with xy show ?thesis by auto
  qed
  then show ?thesis
    by (auto simp: topPages_eq groupBy_path_def ca cb orderBy_desc_def)
qed

lemma six_page_views_rows:
  "map pv_path (pageViews_rows six_page_views)
     = [Some ''/a'', Some ''/b'', Some ''/a'', Some ''/a'', Some ''/b'', Some ''/a'']"
  by (simp add: six_page_views_def visit_def createPageView_def empty_store_def Let_def
      str_col_def)

lemma seven_paths_top:
  "map views (topPages (getAnalyticsDashboard views cs_id seven_paths)) = [3, 2, 2, 1, 1]"
  by (simp add: topPages_eq seven_paths_def view_on_def groupBy_path_def orderBy_desc_def
      count_rows_def)

text \<open>
  C6. For every store state, and whatever order the store gives to paths with equal
  counts, \<open>topPages\<close> has at most 5 entries, on distinct paths; each
  entry is a path of some PageView row with the number of PageView rows on that path; the
  entries are in descending order of that number; and a path that is left out has no more
  rows than any entry (which happens only when there are 5 entries). Whenever the PageView
  rows are 4 on \<open>/a\<close> and 2 on \<open>/b\<close>, \<open>topPages\<close> is \<open>/a\<close> with 4, then \<open>/b\<close>
  with 2.
\<close>

theorem topPages_are_the_five_most_viewed:
  "length (topPages (getAnalyticsDashboard tp tr s)) \<le> 5
   \<and> distinct (map path (topPages (getAnalyticsDashboard tp tr s)))
   \<and> (\<forall>e \<in> set (topPages (getAnalyticsDashboard tp tr s)).
         path e \<in> pv_path ` set (pageViews_rows s) \<and> views e = path_count (path e) s)
   \<and> sorted_wrt (\<lambda>a b. views b \<le> views a) (topPages (getAnalyticsDashboard tp tr s))
   \<and> (\<forall>p \<in> pv_path ` set (pageViews_rows s).
         p \<notin> path ` set (topPages (getAnalyticsDashboard tp tr s)) \<longrightarrow>
           length (topPages (getAnalyticsDashboard tp tr s)) = 5
           \<and> (\<forall>e \<in> set (topPages (getAnalyticsDashboard tp tr s)). path_count p s \<le> views e))
   \<and> (mset (map pv_path (pageViews_rows s))
          = replicate_mset 4 (Some ''/a'') + replicate_mset 2 (Some ''/b'') \<longrightarrow>
        topPages (getAnalyticsDashboard tp tr s)
          = [\<lparr> path = Some ''/a'', views = 4 \<rparr>, \<lparr> path = Some ''/b'', views = 2 \<rparr>])"
  using topPages_general [of tp tr s] topPages_scenario [of s tp tr] by blast

theorem topPages_are_the_five_most_viewed_witness:
  "mset (map pv_path (pageViews_rows six_page_views))
      = replicate_mset 4 (Some ''/a'') + replicate_mset 2 (Some ''/b'')
   \<and> topPages (getAnalyticsDashboard views cs_id six_page_views)
      = [\<lparr> path = Some ''/a'', views = 4 \<rparr>, \<lparr> path = Some ''/b'', views = 2 \<rparr>]
   \<and> path_count (Some ''/a'') six_page_views = 4
   \<and> path_count (Some ''/b'') six_page_views = 2
   \<and> map views (topPages (getAnalyticsDashboard views cs_id seven_paths)) = [3, 2, 2, 1, 1]
   \<and> path_count (Some ''/p7'') seven_paths = 1"
proof -
  have p7: "path_count (Some ''/p7'') seven_paths = 1"
    by (simp add: path_count_def seven_paths_def view_on_def)
  have h: "mset (map pv_path (pageViews_rows six_page_views))
      = replicate_mset 4 (Some ''/a'') + replicate_mset 2 (Some ''/b'')"
    unfolding six_page_views_rows by (simp add: numeral_eq_Suc)
  with topPages_are_the_five_most_viewed
         [where s = six_page_views and tp = views and tr = cs_id]
  have tp: "topPages (getAnalyticsDashboard views cs_id six_page_views)
      = [\<lparr> path = Some ''/a'', views = 4 \<rparr>, \<lparr> path = Some ''/b'', views = 2 \<rparr>]"
    and cnt: "\<forall>e \<in> set (topPages (getAnalyticsDashboard views cs_id six_page_views)).
                 views e = path_count (path e) six_page_views"
    by blast+
  from cnt have "path_count (Some ''/a'') six_page_views = 4"
    and "path_count (Some ''/b'') six_page_views = 2"
    unfolding tp by simp_all
  with h tp p7 seven_paths_top show ?thesis by simp
qed

lemma recentSubmissions_eq:
  "recentSubmissions (getAnalyticsDashboard tp tr s)
     = take 5 (orderBy_desc tr cs_createdAt (contactSubmissions_rows s))"
  by (simp add: getAnalyticsDashboard_def Let_def limit_def)

lemma same_time_first_five:
  "map cs_id (take 5 (getContactSubmissions cs_id same_time_submissions)) = [1, 2, 3, 4, 5]"
  by (simp add: getContactSubmissions_def orderBy_desc_def same_time_submissions_def
      submission_at_def)

lemma same_time_recent:
  "map cs_id (recentSubmissions
       (getAnalyticsDashboard views highest_id_first same_time_submissions)) = [6, 5, 4, 3, 2]"
  by (simp add: recentSubmissions_eq orderBy_desc_def same_time_submissions_def
      submission_at_def highest_id_first_def)

text \<open>
  C9, as the claim states it, fails. Six submissions were created at the same time. Both
  queries return them in descending order of \<open>createdAt\<close>, and the store is free in
  the order among them: \<open>getContactSubmissions()\<close> returns the ids 1 to 6 and its first
  five are 1 to 5, while \<open>recentSubmissions\<close>, a query of its own, is 6 down to 2.
\<close>

theorem recentSubmissions_differ_on_ties:
  "map cs_createdAt (contactSubmissions_rows same_time_submissions) = [10, 10, 10, 10, 10, 10]
   \<and> map cs_id (getContactSubmissions cs_id same_time_submissions) = [1, 2, 3, 4, 5, 6]
   \<and> map cs_id (take 5 (getContactSubmissions cs_id same_time_submissions)) = [1, 2, 3, 4, 5]
   \<and> map cs_id (recentSubmissions
         (getAnalyticsDashboard views highest_id_first same_time_submissions)) = [6, 5, 4, 3, 2]
   \<and> recentSubmissions (getAnalyticsDashboard views highest_id_first same_time_submissions)
        \<noteq> take 5 (getContactSubmissions cs_id same_time_submissions)"
proof -
  have "map cs_createdAt (contactSubmissions_rows same_time_submissions)
          = [10, 10, 10, 10, 10, 10]"
    by (simp add: same_time_submissions_def submission_at_def)
  moreover have "map cs_id (getContactSubmissions cs_id same_time_submissions)
          = [1, 2, 3, 4, 5, 6]"
    by (simp add: getContactSubmissions_def orderBy_desc_def same_time_submissions_def
        submission_at_def)
  moreover have "recentSubmissions
          (getAnalyticsDashboard views highest_id_first same_time_submissions)
        \<noteq> take 5 (getContactSubmissions cs_id same_time_submissions)"
  proof
    assume "recentSubmissions
          (getAnalyticsDashboard views highest_id_first same_time_submissions)
        = take 5 (getContactSubmissions cs_id same_time_submissions)"
    then have "map cs_id (recentSubmissions
          (getAnalyticsDashboard views highest_id_first same_time_submissions))
        = map cs_id (take 5 (getContactSubmissions cs_id same_time_submissions))"
      by simp
    then show False unfolding same_time_first_five same_time_recent by simp
  qed
  ultimately show ?thesis using same_time_first_five same_time_recent by simp
qed

text \<open>
  C9, amended. For every store state and every way the store orders rows of equal
  \<open>createdAt\<close>: \<open>getContactSubmissions()\<close> returns all ContactSubmission rows, each
  once, in descending order of \<open>createdAt\<close>. \<open>recentSubmissions\<close> holds 5 of the rows
  (all of them when there are fewer), in descending order of \<open>createdAt\<close>; no other row
  was created later than a row in it; its \<open>createdAt\<close> values are, position by
  position, those of the first 5 elements of \<open>getContactSubmissions()\<close>; and it is
  those first 5 elements when no two rows have the same \<open>createdAt\<close>.
\<close>

theorem submissions_newest_first:
  "mset (getContactSubmissions t s) = mset (contactSubmissions_rows s)
   \<and> sorted_wrt (\<lambda>a b. cs_createdAt b \<le> cs_createdAt a) (getContactSubmissions t s)
   \<and> length (recentSubmissions (getAnalyticsDashboard tp tr s))
        = min 5 (length (contactSubmissions_rows s))
   \<and> mset (recentSubmissions (getAnalyticsDashboard tp tr s))
        \<subseteq># mset (contactSubmissions_rows s)
   \<and> sorted_wrt (\<lambda>a b. cs_createdAt b \<le> cs_createdAt a)
        (recentSubmissions (getAnalyticsDashboard tp tr s))
   \<and> (\<forall>a \<in> set (recentSubmissions (getAnalyticsDashboard tp tr s)).
        \<forall>b \<in># mset (contactSubmissions_rows s)
                 - mset (recentSubmissions (getAnalyticsDashboard tp tr s)).
          cs_createdAt b \<le> cs_createdAt a)
   \<and> map cs_createdAt (recentSubmissions (getAnalyticsDashboard tp tr s))
        = take 5 (map cs_createdAt (getContactSubmissions t s))
   \<and> (distinct (map cs_createdAt (contactSubmissions_rows s)) \<longrightarrow>
        recentSubmissions (getAnalyticsDashboard tp tr s) = take 5 (getContactSubmissions t s))"
proof -
  let ?rows = "contactSubmissions_rows s"
  let ?all = "orderBy_desc tr cs_createdAt ?rows"
  let ?rec = "recentSubmissions (getAnalyticsDashboard tp tr s)"
  have rec: "?rec = take 5 ?all" by (rule recentSubmissions_eq)
  have m: "mset (getContactSubmissions t s) = mset ?rows"
    by (simp add: getContactSubmissions_def mset_orderBy_desc)
  have srt: "sorted_wrt (\<lambda>a b. cs_createdAt b \<le> cs_createdAt a) (getContactSubmissions t s)"
    unfolding getContactSubmissions_def by (rule sorted_orderBy_desc)
  have srt_all: "sorted_wrt (\<lambda>a b. cs_createdAt b \<le> cs_createdAt a) ?all"
    by (rule sorted_orderBy_desc)
  have "length ?all = length ?rows"
    using mset_orderBy_desc [of tr cs_createdAt ?rows] by (rule mset_eq_length)
  then have len: "length ?rec = min 5 (length ?rows)" by (simp add: rec min.commute)
  have split: "mset ?rows = mset ?rec + mset (drop 5 ?all)"
  proof -
    have "mset ?all = mset (take 5 ?all) + mset (drop 5 ?all)"
      using mset_append [of "take 5 ?all" "drop 5 ?all"] by (simp only: append_take_drop_id)
    then show ?thesis by (simp only: rec mset_orderBy_desc)
  qed
  then have sub: "mset ?rec \<subseteq># mset ?rows" by simp
  have srt_rec: "sorted_wrt (\<lambda>a b. cs_createdAt b \<le> cs_createdAt a) ?rec"
    unfolding rec using srt_all by (rule sorted_wrt_take)
  have rest: "mset ?rows - mset ?rec = mset (drop 5 ?all)" using split by simp
  have top: "\<forall>a \<in> set ?rec. \<forall>b \<in># mset ?rows - mset ?rec. cs_createdAt b \<le> cs_createdAt a"
    unfolding rest unfolding rec using sorted_wrt_take_drop [OF srt_all] by auto
  have keys: "map cs_createdAt ?rec = take 5 (map cs_createdAt (getContactSubmissions t s))"
  proof -
    have "map cs_createdAt (take 5 ?all) = take 5 (map cs_createdAt ?all)"
      by (simp only: take_map)
    also have "map cs_createdAt ?all
                 = map cs_createdAt (orderBy_desc t cs_createdAt ?rows)"
      by (rule keys_orderBy_desc)
    finally show ?thesis by (simp only: rec getContactSubmissions_def)
  qed
  have uniq: "distinct (map cs_createdAt ?rows) \<longrightarrow> ?rec = take 5 (getContactSubmissions t s)"
    unfolding rec getContactSubmissions_def
    using orderBy_desc_unique [of cs_createdAt ?rows tr t] by simp
  from m srt len sub srt_rec top keys uniq show ?thesis by blast
qed

lemma seven_submissions_sorted:
  "map cs_id (getContactSubmissions cs_id seven_submissions) = [6, 5, 3, 1, 7, 4, 2]"
  by (simp add: getContactSubmissions_def orderBy_desc_def seven_submissions_def
      submission_at_def)

theorem submissions_newest_first_witness:
  "map cs_createdAt (contactSubmissions_rows seven_submissions) = [30, 10, 40, 15, 50, 90, 20]
   \<and> map cs_id (getContactSubmissions cs_id seven_submissions) = [6, 5, 3, 1, 7, 4, 2]
   \<and> recentSubmissions (getAnalyticsDashboard views highest_id_first seven_submissions)
        = take 5 (getContactSubmissions cs_id seven_submissions)
   \<and> map cs_id (recentSubmissions
         (getAnalyticsDashboard views highest_id_first seven_submissions)) = [6, 5, 3, 1, 7]
   \<and> map cs_createdAt (recentSubmissions
         (getAnalyticsDashboard views highest_id_first same_time_submissions))
        = [10, 10, 10, 10, 10]
   \<and> length (contactSubmissions_rows same_time_submissions) = 6"
proof -
  have times: "map cs_createdAt (contactSubmissions_rows seven_submissions)
                 = [30, 10, 40, 15, 50, 90, 20]"
    by (simp add: seven_submissions_def submission_at_def)
  then have d: "distinct (map cs_createdAt (contactSubmissions_rows seven_submissions))"
    by simp
  from submissions_newest_first [where s = seven_submissions and t = cs_id and tp = views
      and tr = highest_id_first] d
  have eq: "recentSubmissions (getAnalyticsDashboard views highest_id_first seven_submissions)
        = take 5 (getContactSubmissions cs_id seven_submissions)"
    by blast
  have ids: "map cs_id (recentSubmissions
         (getAnalyticsDashboard views highest_id_first seven_submissions)) = [6, 5, 3, 1, 7]"
    unfolding eq take_map [symmetric] seven_submissions_sorted by simp
  have same: "map cs_createdAt (getContactSubmissions cs_id same_time_submissions)
                = [10, 10, 10, 10, 10, 10]"
    by (simp add: getContactSubmissions_def orderBy_desc_def same_time_submissions_def
        submission_at_def)
  from submissions_newest_first [where s = same_time_submissions and t = cs_id and tp = views
      and tr = highest_id_first]
  have "map cs_createdAt (recentSubmissions
         (getAnalyticsDashboard views highest_id_first same_time_submissions))
        = take 5 (map cs_createdAt (getContactSubmissions cs_id same_time_submissions))"
    by blast
  then have "map cs_createdAt (recentSubmissions
         (getAnalyticsDashboard views highest_id_first same_time_submissions))
        = [10, 10, 10, 10, 10]"
    unfolding same by simp
  moreover have "length (contactSubmissions_rows same_time_submissions) = 6"
    by (simp add: same_time_submissions_def)
  ultimately show ?thesis using times seven_submissions_sorted eq ids by simp
qed

section \<open>Client portal\<close>

text \<open>
  C7. For every client id, \<open>getClientProjects\<close> returns exactly the Project rows whose
  \<open>clientId\<close> is that id, each once, and nothing when there is none. After
  \<open>createClient\<close> and then \<open>createProject\<close> with the new client's id as
  \<open>clientId\<close>, \<open>getClientProjects\<close> of that id contains the created project and no
  project of another client.
\<close>

theorem getClientProjects_selects_by_client:
  "mset (getClientProjects X s)
     = filter_mset (\<lambda>p. pr_clientId p = Some X) (mset (projects_rows s))
   \<and> ((\<forall>p \<in> set (projects_rows s). pr_clientId p \<noteq> Some X) \<longrightarrow> getClientProjects X s = [])
   \<and> (\<exists>cl s1 p s2. createClient c s = (Some cl, s1)
        \<and> createProject (v(''clientId'' \<mapsto> JNum (cl_id cl))) s1 = (Some p, s2)
        \<and> p \<in> set (getClientProjects (cl_id cl) s2)
        \<and> (\<forall>q \<in> set (projects_rows s2). pr_clientId q \<noteq> Some (cl_id cl) \<longrightarrow>
              q \<notin> set (getClientProjects (cl_id cl) s2)))"
  by (auto simp: getClientProjects_def createClient_def createProject_def Let_def
      first_row_def num_col_def filter_empty_conv)

lemma other_project_rows:
  "map pr_clientId (projects_rows other_project) = [Some 7]"
  by (simp add: other_project_def createProject_def empty_store_def Let_def num_col_def)

theorem getClientProjects_selects_by_client_witness:
  "map pr_clientId (projects_rows other_project) = [Some 7]
   \<and> getClientProjects 1 other_project = []
   \<and> map pr_clientId (getClientProjects 7 other_project) = [Some 7]
   \<and> map_option cl_id (fst (createClient Map.empty other_project)) = Some 1
   \<and> map pr_clientId (getClientProjects 1
        (snd (createProject [''clientId'' \<mapsto> JNum 1] (snd (createClient Map.empty other_project)))))
       = [Some 1]"
proof -
  have h: "\<forall>p \<in> set (projects_rows other_project). pr_clientId p \<noteq> Some 1"
  proof
    fix p assume "p \<in> set (projects_rows other_project)"
    then have "pr_clientId p \<in> set (map pr_clientId (projects_rows other_project))" by simp
    then show "pr_clientId p \<noteq> Some 1" unfolding other_project_rows by simp
  qed
  from getClientProjects_selects_by_client [of 1 other_project] h
  have e: "getClientProjects 1 other_project = []" by blast
  have "map pr_clientId (getClientProjects 7 other_project) = [Some 7]"
    by (simp add: getClientProjects_def other_project_def createProject_def empty_store_def
        Let_def num_col_def)
  moreover have "map_option cl_id (fst (createClient Map.empty other_project)) = Some 1"
    by (simp add: createClient_def first_row_def Let_def other_project_def createProject_def
        empty_store_def)
  moreover have "map pr_clientId (getClientProjects 1
        (snd (createProject [''clientId'' \<mapsto> JNum 1] (snd (createClient Map.empty other_project)))))
       = [Some 1]"
    by (simp add: getClientProjects_def createClient_def other_project_def createProject_def
        empty_store_def Let_def num_col_def)
  ultimately show ?thesis using h e other_project_rows by simp
qed

text \<open>
  C8. For every store state, \<open>getAvailableEngineers\<close> returns exactly the Engineer rows
  whose \<open>availability\<close> is the string \<open>available\<close>, each once; an engineer whose
  availability is \<open>busy\<close> is not in the result.
\<close>

theorem getAvailableEngineers_selects_available:
  "mset (getAvailableEngineers s)
     = filter_mset (\<lambda>e. en_availability e = ''available'') (mset (engineers_rows s))
   \<and> (\<forall>e \<in> set (engineers_rows s).
        en_availability e = ''busy'' \<longrightarrow> e \<notin> set (getAvailableEngineers s))"
  by (auto simp: getAvailableEngineers_def)

theorem getAvailableEngineers_selects_available_witness:
  "map en_availability (engineers_rows two_engineers) = [''available'', ''busy'']
   \<and> map en_id (getAvailableEngineers two_engineers) = [1]
   \<and> engineers_rows two_engineers ! 1 \<notin> set (getAvailableEngineers two_engineers)"
proof -
  let ?e = "engineers_rows two_engineers ! 1"
  have h: "?e \<in> set (engineers_rows two_engineers)" "en_availability ?e = ''busy''"
    by (simp_all add: two_engineers_def)
  with getAvailableEngineers_selects_available [of two_engineers]
  have "?e \<notin> set (getAvailableEngineers two_engineers)" by blast
  then show ?thesis
    by (simp add: two_engineers_def getAvailableEngineers_def)
qed

lemma merge_overrides:
  "(body(''clientId'' := x, ''status'' := y))
       (''clientId'' \<mapsto> JNum 1, ''status'' \<mapsto> JStr ''planning'')
     = body(''clientId'' \<mapsto> JNum 1, ''status'' \<mapsto> JStr ''planning'')"
  by (rule ext) simp

lemma project_parse:
  "zod_parse project_schema
       (project_body(''clientId'' \<mapsto> JNum 1, ''status'' \<mapsto> JStr ''planning'')) =
     Inr ((project_body(''clientId'' \<mapsto> JNum 1, ''status'' \<mapsto> JStr ''planning''))
            |` {''name'', ''clientId'', ''status''})"
  by (simp add: zod_parse_def project_schema_def project_body_def check_field_def
      is_str_def is_num_def)

text \<open>
  C10. Let the project schema have the fields \<open>clientId\<close> and \<open>status\<close>. Whenever
  \<open>POST /api/client/projects\<close> answers 200, the project in the response is the row that
  was appended to the Project table, and its \<open>clientId\<close> is 1 and its \<open>status\<close> is
  \<open>planning\<close>. Whatever \<open>clientId\<close> and \<open>status\<close> the body carries, or lacks, the
  route behaves as for the body without them.
\<close>

theorem post_client_projects_fixes_client_and_status:
  assumes "''clientId'' \<in> zname ` set schema" and "''status'' \<in> zname ` set schema"
  shows "(status_code (fst (post_client_projects schema body s)) = 200 \<longrightarrow>
          (\<exists>p. post_client_projects schema body s =
                 (\<lparr> status_code = 200, success = True, message = None, errors = None,
                    payload = Some p \<rparr>,
                  s\<lparr> projects_rows := projects_rows s @ [p],
                     projects_seq := projects_seq s + 1 \<rparr>)
             \<and> pr_clientId p = Some 1 \<and> pr_status p = Some ''planning''))
       \<and> post_client_projects schema (body(''clientId'' := x, ''status'' := y)) s
           = post_client_projects schema body s"
proof (intro conjI impI)
  let ?data = "body(''clientId'' \<mapsto> JNum 1, ''status'' \<mapsto> JStr ''planning'')"
  assume ok: "status_code (fst (post_client_projects schema body s)) = 200"
  show "\<exists>p. post_client_projects schema body s =
                 (\<lparr> status_code = 200, success = True, message = None, errors = None,
                    payload = Some p \<rparr>,
                  s\<lparr> projects_rows := projects_rows s @ [p],
                     projects_seq := projects_seq s + 1 \<rparr>)
             \<and> pr_clientId p = Some 1 \<and> pr_status p = Some ''planning''"
  proof (cases "zod_parse schema ?data")
    case (Inl err)
    with ok show ?thesis
      by (cases err) (simp_all add: post_client_projects_def Let_def)
  next
    case (Inr v)
    have "v ''clientId'' = Some (JNum 1)" "v ''status'' = Some (JStr ''planning'')"
      using zod_parse_keeps [OF Inr] assms by simp_all
    with Inr show ?thesis
      by (simp add: post_client_projects_def createProject_def Let_def first_row_def
          num_col_def str_col_def)
  qed
next
  show "post_client_projects schema (body(''clientId'' := x, ''status'' := y)) s
           = post_client_projects schema body s"
    unfolding post_client_projects_def merge_overrides ..
qed

theorem post_client_projects_fixes_client_and_status_witness:
  "''clientId'' \<in> zname ` set project_schema \<and> ''status'' \<in> zname ` set project_schema
   \<and> project_body ''clientId'' = Some (JNum 99) \<and> project_body ''status'' = Some (JStr ''done'')
   \<and> status_code (fst (post_client_projects project_schema project_body other_project)) = 200
   \<and> map_option pr_clientId
        (payload (fst (post_client_projects project_schema project_body other_project)))
        = Some (Some 1)
   \<and> map_option pr_status
        (payload (fst (post_client_projects project_schema project_body other_project)))
        = Some (Some ''planning'')
   \<and> map pr_clientId (projects_rows
        (snd (post_client_projects project_schema project_body other_project)))
        = [Some 7, Some 1]"
proof -
  have h1: "''clientId'' \<in> zname ` set project_schema"
    and h2: "''status'' \<in> zname ` set project_schema"
    by (simp_all add: project_schema_def)
  have h3: "status_code (fst (post_client_projects project_schema project_body other_project))
              = 200"
    by (simp add: post_client_projects_def project_parse createProject_def Let_def)
  from post_client_projects_fixes_client_and_status
         [OF h1 h2, where body = project_body and s = other_project] h3
  obtain p where "post_client_projects project_schema project_body other_project =
      (\<lparr> status_code = 200, success = True, message = None, errors = None, payload = Some p \<rparr>,
       other_project\<lparr> projects_rows := projects_rows other_project @ [p],
                      projects_seq := projects_seq other_project + 1 \<rparr>)"
    and "pr_clientId p = Some 1" and "pr_status p = Some ''planning''"
    by force
  then show ?thesis using h1 h2 h3 by (simp add: other_project_rows project_body_def)
qed

section \<open>The conversion rate\<close>

text \<open>
  Rounding to a double moves a positive number by at most the fraction \<open>2\<^sup>-\<^sup>5\<^sup>3\<close> of
  it: the number lies in the binade of its exponent, and the rounding is off by at most
  half a unit in the last place.
\<close>

lemma round_ties_even_error: "\<bar>of_int (round_ties_even x) - x\<bar> \<le> 1 / 2"
proof -
  have "of_int \<lfloor>x\<rfloor> \<le> x" "x < of_int \<lfloor>x\<rfloor> + 1" by linarith+
  then show ?thesis
    by (auto simp: round_ties_even_def Let_def abs_le_iff)
qed

lemma exponent_bounds:
  assumes "0 < y"
  shows "2 powi exponent y \<le> y \<and> y < 2 powi (exponent y + 1)"
proof (cases "1 \<le> y")
  case True
  let ?n = "\<lfloor>y\<rfloor>"
  have n: "0 < ?n" using True by simp
  from bitlen_bounds [OF n]
  have lo: "2 ^ nat (bitlen ?n - 1) \<le> ?n" and hi: "?n < 2 ^ nat (bitlen ?n)" by simp_all
  have b1: "1 \<le> bitlen ?n" using n by (simp add: bitlen_alt_def)
  have e: "exponent y = bitlen ?n - 1" using True by (simp add: exponent_def)
  have "(2::rat) powi (bitlen ?n - 1) = 2 ^ nat (bitlen ?n - 1)"
    using b1 by (simp add: power_int_def)
  also have "\<dots> = of_int (2 ^ nat (bitlen ?n - 1))" by simp
  also have "\<dots> \<le> of_int ?n" using lo by (rule of_int_le_iff [THEN iffD2])
  also have "\<dots> \<le> y" by simp
  finally have l: "2 powi exponent y \<le> y" unfolding e .
  have "?n + 1 \<le> 2 ^ nat (bitlen ?n)" using hi by simp
  then have "(of_int (?n + 1) :: rat) \<le> of_int (2 ^ nat (bitlen ?n))"
    by (rule of_int_le_iff [THEN iffD2])
  moreover have "y < of_int (?n + 1)" by simp linarith
  ultimately have "y < of_int (2 ^ nat (bitlen ?n))" by linarith
  also have "\<dots> = 2 powi (bitlen ?n)" using b1 by (simp add: power_int_def)
  finally have "y < 2 powi (exponent y + 1)" unfolding e by simp
  with l show ?thesis by simp
next
  case False
  let ?z = "1 / y"
  let ?m = "\<lceil>?z\<rceil> - 1"
  have z1: "1 < ?z" using assms False by simp
  then have "2 \<le> \<lceil>?z\<rceil>" by (simp add: le_ceiling_iff) 
  then have m: "0 < ?m" by simp
  have mz: "of_int ?m < ?z" "?z \<le> of_int ?m + 1" by (simp_all add: ) linarith+
  from bitlen_bounds [OF m]
  have lo: "2 ^ nat (bitlen ?m - 1) \<le> ?m" and hi: "?m < 2 ^ nat (bitlen ?m)" by simp_all
  have b1: "1 \<le> bitlen ?m" using m by (simp add: bitlen_alt_def)
  have e: "exponent y = - bitlen ?m" using False by (simp add: exponent_def)
  have "?m + 1 \<le> 2 ^ nat (bitlen ?m)" using hi by simp
  then have "(of_int (?m + 1) :: rat) \<le> of_int (2 ^ nat (bitlen ?m))"
    by (rule of_int_le_iff [THEN iffD2])
  moreover have "?z \<le> of_int (?m + 1)" using mz(2) by simp
  ultimately have "?z \<le> of_int (2 ^ nat (bitlen ?m))" by (rule order_trans [rotated])
  then have "?z \<le> 2 ^ nat (bitlen ?m)" by (simp only: of_int_power of_int_numeral)
  then have "1 \<le> 2 ^ nat (bitlen ?m) * y" using assms by (simp add: field_simps)
  then have "1 / 2 ^ nat (bitlen ?m) \<le> y" by (simp add: field_simps)
  moreover have "(2::rat) powi (- bitlen ?m) = 1 / 2 ^ nat (bitlen ?m)"
    using b1 by (simp add: power_int_def field_simps)
  ultimately have l: "2 powi exponent y \<le> y" unfolding e by simp
  have "(of_int (2 ^ nat (bitlen ?m - 1)) :: rat) \<le> of_int ?m"
    using lo by (rule of_int_le_iff [THEN iffD2])
  with mz(1) have "of_int (2 ^ nat (bitlen ?m - 1)) < ?z" by (rule le_less_trans [rotated])
  then have "2 ^ nat (bitlen ?m - 1) < ?z" by (simp only: of_int_power of_int_numeral)
  then have "2 ^ nat (bitlen ?m - 1) * y < 1" using assms by (simp add: field_simps)
  then have "y < 1 / 2 ^ nat (bitlen ?m - 1)" by (simp add: field_simps)
  moreover have "(2::rat) powi (- bitlen ?m + 1) = 1 / 2 ^ nat (bitlen ?m - 1)"
  proof -
    have "- bitlen ?m + 1 = - (bitlen ?m - 1)" by simp
    then have "(2::rat) powi (- bitlen ?m + 1) = inverse (2 powi (bitlen ?m - 1))"
      by (simp only: power_int_minus)
    also have "\<dots> = 1 / 2 ^ nat (bitlen ?m - 1)"
      using b1 by (simp add: power_int_def field_simps)
    finally show ?thesis .
  qed
  ultimately have "y < 2 powi (exponent y + 1)" unfolding e by simp
  with l show ?thesis by simp
qed

lemma fl_error:
  assumes "0 < y"
  shows "\<bar>fl y - y\<bar> \<le> y / 2 ^ 53"
proof -
  let ?e = "exponent y"
  let ?ulp = "(2::rat) powi (?e - 52)"
  have ulp: "0 < ?ulp" by simp
  have f: "fl y = of_int (round_ties_even (y / ?ulp)) * ?ulp"
    using assms by (simp add: fl_def Let_def)
  have "fl y - y = (of_int (round_ties_even (y / ?ulp)) - y / ?ulp) * ?ulp"
    using ulp by (simp add: f field_simps)
  then have "\<bar>fl y - y\<bar> = \<bar>of_int (round_ties_even (y / ?ulp)) - y / ?ulp\<bar> * ?ulp"
    using ulp by (simp add: abs_mult)
  also have "\<dots> \<le> 1 / 2 * ?ulp"
    using round_ties_even_error [of "y / ?ulp"] ulp by (intro mult_right_mono) simp_all
  also have "1 / 2 * ?ulp = 2 powi ?e / 2 ^ 53"
  proof -
    have "(2::rat) powi (?e - 52) = 2 powi ?e / 2 powi 52"
      by (simp add: power_int_diff)
    then show ?thesis by simp
  qed
  also have "\<dots> \<le> y / 2 ^ 53"
    using exponent_bounds [OF assms] by (simp add: divide_right_mono)
  finally show ?thesis .
qed

lemma fl_zero: "fl 0 = 0"
  by (simp add: fl_def)

lemma fl_pos: "0 < y \<Longrightarrow> 0 < fl y"
proof -
  assume y: "0 < y"
  have "y / 2 ^ 53 < y" using y by (simp add: field_simps)
  with fl_error [OF y] show ?thesis by linarith
qed

lemma scaled_error:
  assumes "0 < x"
  shows "\<bar>js_mul (js_mul (fl x) 100) 100 - 10000 * x\<bar> \<le> 40000 * x / 2 ^ 53"
proof -
  define a where "a = fl x"
  define b where "b = fl (a * 100)"
  define d where "d = fl (b * 100)"
  have a: "0 < a" "\<bar>a - x\<bar> \<le> x / 2 ^ 53"
    unfolding a_def using fl_pos [OF assms] fl_error [OF assms] by simp_all
  then have a100: "0 < a * 100" by simp
  have b: "0 < b" "\<bar>b - a * 100\<bar> \<le> a * 100 / 2 ^ 53"
    unfolding b_def using fl_pos [OF a100] fl_error [OF a100] by simp_all
  then have b100: "0 < b * 100" by simp
  have d: "\<bar>d - b * 100\<bar> \<le> b * 100 / 2 ^ 53"
    unfolding d_def using fl_error [OF b100] by simp
  have p: "(2::rat) ^ 53 = 9007199254740992" by simp
  have "\<bar>d - 10000 * x\<bar> \<le> 40000 * x / 2 ^ 53"
    using a b d assms unfolding p by linarith
  then show ?thesis
    by (simp add: js_mul_def a_def b_def d_def)
qed

lemma nearest_integer:
  fixes c v :: nat and d :: rat
  assumes v: "0 < v"
    and err: "\<bar>d - 10000 * of_nat c / of_nat v\<bar> * (2 * of_nat v) < 1"
  shows "\<bar>of_int \<lfloor>d + 1 / 2\<rfloor> - 10000 * of_nat c / of_nat v\<bar> \<le> (1 / 2 :: rat)"
proof -
  define k where "k = \<lfloor>d + 1 / 2\<rfloor>"
  define V :: rat where "V = of_nat v"
  define C :: rat where "C = of_nat c"
  define E where "E = d - 10000 * C / V"
  have V: "0 < V" using v by (simp add: V_def)
  have k: "of_int k \<le> d + 1 / 2" "d + 1 / 2 < of_int k + 1"
    unfolding k_def by linarith+
  have E: "\<bar>E\<bar> * (2 * V) < 1" using err by (simp add: E_def C_def V_def)
  then have E2: "\<bar>2 * V * E\<bar> < 1" using V by (simp add: abs_mult mult.commute)
  have dV: "2 * V * d = 20000 * C + 2 * V * E"
    using V by (simp add: E_def field_simps)
  have "2 * V * of_int k \<le> 2 * V * (d + 1 / 2)"
    using k(1) V by (intro mult_left_mono) simp_all
  then have "2 * V * of_int k \<le> 20000 * C + 2 * V * E + V"
    using dV by (simp add: algebra_simps)
  with E2 have "(2 * of_int k - 1) * V - 20000 * C < 1"
    by (simp add: algebra_simps abs_less_iff)
  then have "(of_int ((2 * k - 1) * int v - 20000 * int c) :: rat) < of_int 1"
    by (simp add: V_def C_def)
  then have "(2 * k - 1) * int v - 20000 * int c < 1" by (simp only: of_int_less_iff)
  then have "(2 * k - 1) * int v - 20000 * int c \<le> 0" by simp
  then have "(of_int ((2 * k - 1) * int v - 20000 * int c) :: rat) \<le> of_int 0"
    by (simp only: of_int_le_iff)
  then have lo: "(2 * of_int k - 1) * V \<le> 20000 * C"
    by (simp add: V_def C_def)
  have "2 * V * (d + 1 / 2) < 2 * V * (of_int k + 1)"
    using k(2) V by (intro mult_strict_left_mono) simp_all
  then have "20000 * C + 2 * V * E + V < 2 * V * of_int k + 2 * V"
    using dV by (simp add: algebra_simps)
  with E2 have "20000 * C - (2 * of_int k + 1) * V < 1"
    by (simp add: algebra_simps abs_less_iff)
  then have "(of_int (20000 * int c - (2 * k + 1) * int v) :: rat) < of_int 1"
    by (simp add: V_def C_def)
  then have "20000 * int c - (2 * k + 1) * int v < 1" by (simp only: of_int_less_iff)
  then have "20000 * int c - (2 * k + 1) * int v \<le> 0" by simp
  then have "(of_int (20000 * int c - (2 * k + 1) * int v) :: rat) \<le> of_int 0"
    by (simp only: of_int_le_iff)
  then have hi: "20000 * C \<le> (2 * of_int k + 1) * V"
    by (simp add: V_def C_def)
  have "of_int k - 1 / 2 \<le> 10000 * C / V"
    using lo V by (simp add: field_simps)
  moreover have "10000 * C / V \<le> of_int k + 1 / 2"
    using hi V by (simp add: field_simps)
  ultimately show ?thesis
    unfolding k_def [symmetric] C_def V_def by linarith
qed


lemma conversionRate_counts:
  "conversionRate (getAnalyticsDashboard tp tr s) =
     (if 0 < length (pageViews_rows s)
      then js_div (Math_round (js_mul (js_mul
             (js_div (of_nat (length (contactSubmissions_rows s)))
                     (of_nat (length (pageViews_rows s)))) 100) 100)) 100
      else 0)"
  by (simp add: getAnalyticsDashboard_def count_rows_def Let_def)

text \<open>Without page views the rate is 0, whatever the number of submissions.\<close>

lemma conversionRate_without_views:
  "pageViews_rows s = [] \<Longrightarrow> conversionRate (getAnalyticsDashboard tp tr s) = 0"
  by (simp add: conversionRate_counts)

lemma double_of_1437_hundredths: "fl (1437 / 100) = 8089590830664253 / 562949953421312"
  by code_simp

lemma double_of_1438_hundredths: "fl (1438 / 100) = 8095220330198467 / 562949953421312"
  by code_simp

lemma rate_of_23_in_160:
  "js_div (Math_round (js_mul (js_mul (js_div 23 160) 100) 100)) 100
     = 8089590830664253 / 562949953421312"
  by code_simp

lemma spec_rate_of_23_in_160: "spec_conversionRate 23 160 = 1438 / 100"
  by (simp add: spec_conversionRate_def round_2dp_def)

text \<open>
  C4, as the claim states it, fails at 23 submissions and 160 page views. The exact
  percentage is 14.375, which rounds to 14.38 at two decimal places, a tie going up. The
  double product \<open>(23 / 160) * 100 * 100\<close> is 1437.4999999999998, \<open>Math.round\<close> of
  it is 1437, and \<open>conversionRate\<close> is the double nearest to 14.37: not 14.38, nor the
  double nearest to it.
\<close>

theorem conversionRate_of_23_in_160:
  "contactForms (getAnalyticsDashboard views cs_id many_rows) = 23
   \<and> totalVisitors (getAnalyticsDashboard views cs_id many_rows) = 160
   \<and> spec_conversionRate 23 160 = 1438 / 100
   \<and> conversionRate (getAnalyticsDashboard views cs_id many_rows) = fl (1437 / 100)
   \<and> conversionRate (getAnalyticsDashboard views cs_id many_rows) \<noteq> fl (spec_conversionRate 23 160)
   \<and> conversionRate (getAnalyticsDashboard views cs_id many_rows) < spec_conversionRate 23 160 - 1 / 200"
proof -
  have c: "length (contactSubmissions_rows many_rows) = 23"
    and v: "length (pageViews_rows many_rows) = 160"
    by (simp_all add: many_rows_def empty_store_def)
  have r: "conversionRate (getAnalyticsDashboard views cs_id many_rows)
             = 8089590830664253 / 562949953421312"
    unfolding conversionRate_counts c v using rate_of_23_in_160 by simp
  have "contactForms (getAnalyticsDashboard views cs_id many_rows) = 23"
    and "totalVisitors (getAnalyticsDashboard views cs_id many_rows) = 160"
    by (simp_all add: getAnalyticsDashboard_def count_rows_def Let_def c v)
  then show ?thesis
    unfolding r spec_rate_of_23_in_160 double_of_1437_hundredths double_of_1438_hundredths
    by simp
qed


lemma conversionRate_nearest:
  assumes v: "pageViews_rows s \<noteq> []"
    and c: "length (contactSubmissions_rows s) \<le> 10 ^ 11"
  shows "\<exists>k::int.
           \<bar>(of_int k / 100 :: rat)
              - of_int (contactForms (getAnalyticsDashboard tp tr s))
                  / of_int (totalVisitors (getAnalyticsDashboard tp tr s)) * 100\<bar> \<le> 1 / 200
           \<and> conversionRate (getAnalyticsDashboard tp tr s) = fl (of_int k / 100)"
proof -
  define C :: rat where "C = of_nat (length (contactSubmissions_rows s))"
  define V :: rat where "V = of_nat (length (pageViews_rows s))"
  define d where "d = js_mul (js_mul (js_div C V) 100) 100"
  define k where "k = \<lfloor>d + 1 / 2\<rfloor>"
  have V: "0 < V" using v by (simp add: V_def)
  have C: "0 \<le> C" "C \<le> 10 ^ 11"
  proof -
    show "0 \<le> C" by (simp add: C_def)
    have "(of_nat (length (contactSubmissions_rows s)) :: rat) \<le> of_nat (10 ^ 11)"
      using c by (simp only: of_nat_le_iff)
    then show "C \<le> 10 ^ 11" by (simp add: C_def)
  qed
  have rate: "conversionRate (getAnalyticsDashboard tp tr s) = fl (of_int k / 100)"
    using v by (simp add: conversionRate_counts js_div_def Math_round_def k_def d_def
        C_def V_def)
  have near: "\<bar>of_int k - 10000 * C / V\<bar> \<le> 1 / 2"
  proof (cases "C = 0")
    case True
    then have "d = 0" by (simp add: d_def js_div_def js_mul_def fl_zero)
    moreover have "\<lfloor>1 / 2 :: rat\<rfloor> = 0" by (simp add: floor_eq_iff)
    ultimately have "k = 0" by (simp add: k_def)
    with True show ?thesis by simp
  next
    case False
    with C(1) V have x: "0 < C / V" by simp
    have "\<bar>d - 10000 * (C / V)\<bar> \<le> 40000 * (C / V) / 2 ^ 53"
      unfolding d_def js_div_def by (rule scaled_error [OF x])
    then have "\<bar>d - 10000 * C / V\<bar> * (2 * V) \<le> 40000 * (C / V) / 2 ^ 53 * (2 * V)"
      using V by (intro mult_right_mono) simp_all
    also have "\<dots> = 80000 * C / 2 ^ 53" using V by simp
    also have "\<dots> < 1" using C(2) by simp
    finally have "\<bar>d - 10000 * of_nat (length (contactSubmissions_rows s))
                      / of_nat (length (pageViews_rows s))\<bar>
                    * (2 * of_nat (length (pageViews_rows s))) < 1"
      by (simp add: C_def V_def)
    moreover have "0 < length (pageViews_rows s)" using v by simp
    ultimately show ?thesis
      unfolding k_def C_def V_def by (intro nearest_integer)
  qed
  have "\<bar>of_int k / 100 - C / V * 100\<bar> \<le> 1 / 200"
  proof -
    define q where "q = C / V"
    have "\<bar>of_int k - 10000 * q\<bar> \<le> 1 / 2" using near by (simp add: q_def)
    then have "\<bar>of_int k / 100 - q * 100\<bar> \<le> 1 / 200" by linarith
    then show ?thesis by (simp only: q_def)
  qed
  moreover have "of_int (contactForms (getAnalyticsDashboard tp tr s)) = C"
    and "of_int (totalVisitors (getAnalyticsDashboard tp tr s)) = V"
    by (simp_all add: getAnalyticsDashboard_def count_rows_def Let_def C_def V_def)
  ultimately show ?thesis using rate by auto
qed


text \<open>
  C4, amended. Without page views \<open>conversionRate\<close> is 0, whatever the number of
  submissions. With page views (and at most \<open>10\<^sup>1\<^sup>1\<close> submissions) it is the double
  nearest to \<open>k / 100\<close> for an integer \<open>k\<close> such that \<open>k / 100\<close> is within
  \<open>0.005\<close> of the exact percentage \<open>contactForms / totalVisitors * 100\<close>: the
  percentage rounded to a nearest hundredth, in double precision, with the direction of
  an exact tie left open.
\<close>

theorem conversionRate_is_a_nearest_hundredth:
  "(pageViews_rows s = [] \<longrightarrow> conversionRate (getAnalyticsDashboard tp tr s) = 0)
   \<and> (pageViews_rows s \<noteq> [] \<and> length (contactSubmissions_rows s) \<le> 10 ^ 11 \<longrightarrow>
        (\<exists>k::int.
           \<bar>(of_int k / 100 :: rat)
              - of_int (contactForms (getAnalyticsDashboard tp tr s))
                  / of_int (totalVisitors (getAnalyticsDashboard tp tr s)) * 100\<bar> \<le> 1 / 200
           \<and> conversionRate (getAnalyticsDashboard tp tr s) = fl (of_int k / 100)))"
  using conversionRate_without_views [of s tp tr] conversionRate_nearest [of s tp tr] by blast

theorem conversionRate_is_a_nearest_hundredth_witness:
  "pageViews_rows one_submission = []
   \<and> contactForms (getAnalyticsDashboard views cs_id one_submission) = 1
   \<and> conversionRate (getAnalyticsDashboard views cs_id one_submission) = 0
   \<and> length (pageViews_rows many_rows) = 160
   \<and> length (contactSubmissions_rows many_rows) = 23
   \<and> (\<exists>k::int. \<bar>(of_int k / 100 :: rat) - 23 / 160 * 100\<bar> \<le> 1 / 200
         \<and> conversionRate (getAnalyticsDashboard views cs_id many_rows) = fl (of_int k / 100))"
proof -
  have e: "pageViews_rows one_submission = []"
    by (simp add: one_submission_def createContactSubmission_def insert_contactSubmission_def
        empty_store_def Let_def)
  have e1: "contactForms (getAnalyticsDashboard views cs_id one_submission) = 1"
    by (simp add: getAnalyticsDashboard_def count_rows_def Let_def one_submission_rows)
  have c: "length (contactSubmissions_rows many_rows) = 23"
    and v: "length (pageViews_rows many_rows) = 160"
    by (simp_all add: many_rows_def empty_store_def)
  have cf: "contactForms (getAnalyticsDashboard views cs_id many_rows) = 23"
    and tv: "totalVisitors (getAnalyticsDashboard views cs_id many_rows) = 160"
    by (simp_all add: getAnalyticsDashboard_def count_rows_def Let_def c v)
  have h: "pageViews_rows many_rows \<noteq> [] \<and> length (contactSubmissions_rows many_rows) \<le> 10 ^ 11"
    using c v by auto
  from conversionRate_is_a_nearest_hundredth
         [where s = one_submission and tp = views and tr = cs_id] e
  have z: "conversionRate (getAnalyticsDashboard views cs_id one_submission) = 0" by blast
  from conversionRate_is_a_nearest_hundredth
         [where s = many_rows and tp = views and tr = cs_id] h
  have "\<exists>k::int. \<bar>(of_int k / 100 :: rat) - 23 / 160 * 100\<bar> \<le> 1 / 200
         \<and> conversionRate (getAnalyticsDashboard views cs_id many_rows) = fl (of_int k / 100)"
    unfolding cf tv by simp
  with e e1 z c v show ?thesis by simp
qed

end
